theory Spec2Isabelle
  imports Main "HOL-Library.Word" "HOL-Library.Signed_Division"
begin

unbundle bit_operations_syntax

section \<open>Stepper motion engine of \<^verbatim>\<open>stepper.c\<close>\<close>

text \<open>
  The theory embeds the motion engine of
  \<^verbatim>\<open>Examples/MCUXpresso/tinyK22/tinyK22_WS2812B_Ring/source/stepper.c\<close>:
  the tick engine (\<^verbatim>\<open>STEPPER_TimerClockCallback\<close>, \<^verbatim>\<open>AccelDelay\<close>), the move planner
  (\<^verbatim>\<open>STEPPER_MoveClockDegreeAbs\<close> and the relative moves) and the homing controller
  (\<^verbatim>\<open>STEPPER_MoveHandOnSensor\<close>, \<^verbatim>\<open>STEPPER_ZeroHand\<close>, \<^verbatim>\<open>STEPPER_SetOffsetFrom12\<close>).

  Machine integers are words: \<^verbatim>\<open>int32_t\<close> is \<^typ>\<open>32 word\<close> and \<^verbatim>\<open>int16_t\<close> is
  \<^typ>\<open>16 word\<close>, read as two's complement by \<^const>\<open>sint\<close> and compared by the signed
  orders \<open>\<le>s\<close> and \<open><s\<close>. Arithmetic wraps around, which is what the target
  (ARM Cortex-M, gcc) does where C leaves signed overflow undefined.
\<close>

subsection \<open>Device state\<close>

text \<open>
  \<^verbatim>\<open>STEPPER_Device_t\<close> (lines 64-74). The field \<open>device\<close> is the motor or LED device the
  pointer refers to, \<open>stepFn\<close> the callback that performs one step on it; the callback
  receives the device and the direction and its effect is the new device. The queue
  handle is opaque.
\<close>

record 'd STEPPER_Device =
  device :: 'd
  stepFn :: "'d \<Rightarrow> int \<Rightarrow> 'd"
  pos :: "32 word"
  doSteps :: "32 word"
  delay :: "16 word"
  delayCntr :: "16 word"
  accelStepCntr :: "32 word"
  speedup :: bool
  slowdown :: bool
  queue :: nat

definition STEPPER_ACCEL_HIGHEST_POS :: "32 word" where
  "STEPPER_ACCEL_HIGHEST_POS = 300"

subsection \<open>Tick engine\<close>

text \<open>\<^verbatim>\<open>AccelDelay\<close> (lines 140-154): the table that adds to the delay counter.\<close>

definition AccelDelay :: "'d STEPPER_Device \<Rightarrow> 32 word \<Rightarrow> 'd STEPPER_Device" where
  "AccelDelay mot steps =
    (if steps \<le>s STEPPER_ACCEL_HIGHEST_POS then
       (if steps \<le>s 50 then mot\<lparr>delayCntr := delayCntr mot + 10\<rparr>
        else if steps \<le>s 100 then mot\<lparr>delayCntr := delayCntr mot + 7\<rparr>
        else if steps \<le>s 150 then mot\<lparr>delayCntr := delayCntr mot + 5\<rparr>
        else if steps \<le>s 250 then mot\<lparr>delayCntr := delayCntr mot + 3\<rparr>
        else if steps \<le>s STEPPER_ACCEL_HIGHEST_POS then mot\<lparr>delayCntr := delayCntr mot + 1\<rparr>
        else mot)
     else mot)"

text \<open>\<^verbatim>\<open>STEPPER_IsIdle\<close> (lines 156-159).\<close>

definition STEPPER_IsIdle :: "'d STEPPER_Device \<Rightarrow> bool" where
  "STEPPER_IsIdle mot = (doSteps mot = 0)"

text \<open>
  \<^verbatim>\<open>STEPPER_TimerClockCallback\<close> (lines 161-203), in three parts. \<open>tick_step\<close> is the
  physical step of lines 166-174, taken when \<open>doSteps\<close> is not zero.
\<close>

definition tick_step :: "'d STEPPER_Device \<Rightarrow> 'd STEPPER_Device" where
  "tick_step mot =
    (if 0 <s doSteps mot then
       mot\<lparr>pos := pos mot + 1, device := stepFn mot (device mot) 1, doSteps := doSteps mot - 1\<rparr>
     else if doSteps mot <s 0 then
       mot\<lparr>pos := pos mot - 1, device := stepFn mot (device mot) (- 1), doSteps := doSteps mot + 1\<rparr>
     else mot)"

text \<open>\<open>tick_ramp\<close> is the acceleration block of lines 176-195, run after the reload.\<close>

definition tick_ramp :: "'d STEPPER_Device \<Rightarrow> 'd STEPPER_Device" where
  "tick_ramp mot =
    (if speedup mot \<or> slowdown mot then
       (let stepsToGo = doSteps mot;
            stepsToGo = (if stepsToGo <s 0 then - stepsToGo else stepsToGo)
        in if speedup mot \<and> STEPPER_ACCEL_HIGHEST_POS <s stepsToGo then
             (let mot1 = (if accelStepCntr mot \<le>s STEPPER_ACCEL_HIGHEST_POS
                          then mot\<lparr>accelStepCntr := accelStepCntr mot + 1\<rparr> else mot)
              in AccelDelay mot1 (accelStepCntr mot1))
           else if slowdown mot \<and> stepsToGo <s STEPPER_ACCEL_HIGHEST_POS then
             (let mot1 = (if 0 \<le>s accelStepCntr mot
                          then mot\<lparr>accelStepCntr := accelStepCntr mot - 1\<rparr> else mot);
                  mot2 = mot1\<lparr>accelStepCntr := accelStepCntr mot1 - 1\<rparr>
              in AccelDelay mot2 (accelStepCntr mot2))
           else mot)
     else mot)"

text \<open>The callback returns whether there is still work to do, and the device.\<close>

definition STEPPER_TimerClockCallback :: "'d STEPPER_Device \<Rightarrow> bool \<times> 'd STEPPER_Device" where
  "STEPPER_TimerClockCallback mot =
    (if delayCntr mot = 0 then
       (if doSteps mot \<noteq> 0 then
          (let mot1 = tick_step mot;
               mot2 = mot1\<lparr>delayCntr := delay mot1\<rparr>
           in (True, tick_ramp mot2))
        else (False, mot))
     else (True, mot\<lparr>delayCntr := delayCntr mot - 1\<rparr>))"

text \<open>
  Driving the engine: \<open>run_ticks n\<close> is \<open>n\<close> successive invocations of the callback
  on one device, as the timer interrupt makes them.
\<close>

primrec run_ticks :: "nat \<Rightarrow> 'd STEPPER_Device \<Rightarrow> 'd STEPPER_Device" where
  "run_ticks 0 mot = mot"
| "run_ticks (Suc n) mot = run_ticks n (snd (STEPPER_TimerClockCallback mot))"

text \<open>
  For a move without ramp: the number of invocations after which \<open>doSteps\<close> is zero
  for the first time. The pending countdown comes first, every step but the last is
  followed by a countdown of \<open>delay\<close> ticks.
\<close>

definition ticks_to_go :: "'d STEPPER_Device \<Rightarrow> nat" where
  "ticks_to_go mot =
     (if doSteps mot = 0 then 0
      else nat (sint (delayCntr mot))
           + (nat \<bar>sint (doSteps mot)\<bar> - 1) * (nat (sint (delay mot)) + 1) + 1)"

definition plain_inv :: "'d STEPPER_Device \<Rightarrow> bool" where
  "plain_inv mot \<longleftrightarrow> \<not> speedup mot \<and> \<not> slowdown mot
      \<and> 0 \<le>s delayCntr mot \<and> delayCntr mot \<le>s delay mot"

subsection \<open>Move planner\<close>

text \<open>
  Modelled from the spec: the enumeration \<^verbatim>\<open>STEPPER_MoveMode_e\<close>, declared in
  \<^verbatim>\<open>stepper.h\<close>, which is not among the sources. The spec's direction policies are CW,
  CCW and SHORTEST; the names are those \<^verbatim>\<open>stepper.c\<close> uses (lines 280-290).
\<close>

datatype STEPPER_MoveMode_e = STEPPER_MOVE_MODE_SHORT | STEPPER_MOVE_MODE_CW | STEPPER_MOVE_MODE_CCW

text \<open>
  \<^verbatim>\<open>STEPPER_CLOCK_360_STEPS\<close> comes from \<^verbatim>\<open>stepperConfig.h\<close>, which is not among the
  sources either; it is a parameter of every function that uses it.

  C division and remainder on \<^verbatim>\<open>int32_t\<close> truncate towards zero: \<open>sdiv\<close> and \<open>smod\<close>
  on the two's complement values. The divisors in the source are 360, 2 and the
  revolution length, which the theorems take positive, so the division by zero that
  C leaves undefined does not occur.
\<close>

definition div_s32 :: "32 word \<Rightarrow> 32 word \<Rightarrow> 32 word" where
  "div_s32 a b = word_of_int (sint a sdiv sint b)"

definition mod_s32 :: "32 word \<Rightarrow> 32 word \<Rightarrow> 32 word" where
  "mod_s32 a b = word_of_int (sint a smod sint b)"

text \<open>
  \<^verbatim>\<open>STEPPER_MoveClockDegreeAbs\<close> (lines 266-303), with its local variables as named
  parts: \<open>clock_degree\<close> is \<open>degree\<close> after lines 270-273, \<open>clock_targetPos\<close> is line 274,
  \<open>clock_currPos\<close> is lines 275-279 and \<open>clock_steps\<close> the mode dispatch of lines 280-297.
\<close>

definition clock_degree :: "32 word \<Rightarrow> 32 word" where
  "clock_degree degree = mod_s32 (if degree <s 0 then 360 + degree else degree) 360"

definition clock_targetPos :: "32 word \<Rightarrow> 32 word \<Rightarrow> 32 word" where
  "clock_targetPos STEPPER_CLOCK_360_STEPS degree =
     div_s32 (STEPPER_CLOCK_360_STEPS * clock_degree degree) 360"

definition clock_currPos :: "32 word \<Rightarrow> 32 word \<Rightarrow> 32 word" where
  "clock_currPos STEPPER_CLOCK_360_STEPS p =
     (let currPos = mod_s32 p STEPPER_CLOCK_360_STEPS
      in if currPos <s 0 then STEPPER_CLOCK_360_STEPS + currPos else currPos)"

definition clock_steps :: "32 word \<Rightarrow> STEPPER_MoveMode_e \<Rightarrow> 32 word \<Rightarrow> 32 word \<Rightarrow> 32 word" where
  "clock_steps STEPPER_CLOCK_360_STEPS mode targetPos currPos =
     (if mode = STEPPER_MOVE_MODE_CW then
        (let steps = targetPos - currPos
         in if steps <s 0 then STEPPER_CLOCK_360_STEPS + steps else steps)
      else if mode = STEPPER_MOVE_MODE_CCW then
        (let steps = targetPos - currPos
         in if 0 <s steps then - STEPPER_CLOCK_360_STEPS + steps else steps)
      else
        (let steps = targetPos - currPos
         in if div_s32 STEPPER_CLOCK_360_STEPS 2 <s steps then - (STEPPER_CLOCK_360_STEPS - steps)
            else if steps <s - (div_s32 STEPPER_CLOCK_360_STEPS 2)
            then - (- STEPPER_CLOCK_360_STEPS - steps)
            else steps))"

text \<open>The \<^verbatim>\<open>uint8_t\<close> delay argument is stored in the \<^verbatim>\<open>int16_t\<close> field.\<close>

definition STEPPER_MoveClockDegreeAbs ::
  "32 word \<Rightarrow> 'd STEPPER_Device \<Rightarrow> 32 word \<Rightarrow> STEPPER_MoveMode_e \<Rightarrow> 8 word \<Rightarrow> bool \<Rightarrow> bool
   \<Rightarrow> 'd STEPPER_Device" where
  "STEPPER_MoveClockDegreeAbs STEPPER_CLOCK_360_STEPS dev degree mode dly speedUp slowDown =
     (let targetPos = clock_targetPos STEPPER_CLOCK_360_STEPS degree;
          currPos = clock_currPos STEPPER_CLOCK_360_STEPS (pos dev);
          steps = clock_steps STEPPER_CLOCK_360_STEPS mode targetPos currPos
      in dev\<lparr>doSteps := steps, accelStepCntr := 0, delay := ucast dly,
              speedup := speedUp, slowdown := slowDown\<rparr>)"

text \<open>
  \<^verbatim>\<open>STEPPER_MoveMotorStepsRel\<close> (lines 305-311); the \<^verbatim>\<open>uint16_t\<close> delay is stored in the
  \<^verbatim>\<open>int16_t\<close> field bit for bit. \<^verbatim>\<open>STEPPER_MoveMotorDegreeRel\<close> (lines 316-325).
\<close>

definition STEPPER_MoveMotorStepsRel :: "'d STEPPER_Device \<Rightarrow> 32 word \<Rightarrow> 16 word \<Rightarrow> 'd STEPPER_Device" where
  "STEPPER_MoveMotorStepsRel dev steps dly = dev\<lparr>doSteps := steps, accelStepCntr := 0, delay := dly\<rparr>"

definition STEPPER_MoveMotorDegreeRel ::
  "32 word \<Rightarrow> 'd STEPPER_Device \<Rightarrow> 32 word \<Rightarrow> 16 word \<Rightarrow> 'd STEPPER_Device" where
  "STEPPER_MoveMotorDegreeRel STEPPER_CLOCK_360_STEPS dev degree dly =
     (let steps = (if 0 \<le>s degree then div_s32 (STEPPER_CLOCK_360_STEPS * degree) 360
                   else div_s32 (- (STEPPER_CLOCK_360_STEPS * - degree)) 360)
      in STEPPER_MoveMotorStepsRel dev steps dly)"

subsection \<open>Homing controller: the world outside the file\<close>

text \<open>
  The homing functions (lines 360-517) call code that is not part of \<^verbatim>\<open>stepper.c\<close>:
  the magnet sensors (\<^verbatim>\<open>MAG_IsTriggered\<close>), the wait that lets the timer run the motors
  (\<^verbatim>\<open>STEPPER_MoveAndWait\<close>), the driver's position counters (\<^verbatim>\<open>X12_017_SetPos\<close>,
  \<^verbatim>\<open>X12_017_GetPos\<close>) and the configuration in flash (\<^verbatim>\<open>NVMC_GetDataPtr\<close>,
  \<^verbatim>\<open>NVMC_WriteConfig\<close>, \<^verbatim>\<open>NVMC_GetStepperZeroOffset\<close>). They are parameters of the model:
  a record \<open>extern\<close> of functions on a hardware state \<open>'h\<close> that stands for everything
  they can read or change (hands, magnets, driver chips, flash, time). Reading a sensor
  may change that state, so two readings need not agree.

  A motor is addressed by its index in the table \<^verbatim>\<open>STEPPER_Clocks\<close>, flattened to
  \<open>c * STEPPER_NOF_CLOCK_MOTORS + m\<close>; the same index names its sensor and its driver
  channel. The table holds the fields the planner writes. The model keeps a log of the
  calls that act on the hardware, so that a theorem can say which calls were made.
\<close>

text \<open>
  Modelled from the spec: the error codes, whose header is not among the sources.
  The spec's taxonomy is Ok, Failed and Underflow/Timeout; the names are those
  \<^verbatim>\<open>stepper.c\<close> uses, and \<open>ERR_OTHER\<close> stands for any other code that
  \<^verbatim>\<open>NVMC_WriteConfig\<close> may return.
\<close>

datatype err = ERR_OK | ERR_FAILED | ERR_UNDERFLOW | ERR_OTHER nat

datatype call = Call_MoveAndWait "32 word" | Call_SetPos nat "32 word" | Call_WriteConfig "16 word list"

text \<open>
  Modelled from the spec: \<^verbatim>\<open>NVMC_Data_t\<close> of \<^verbatim>\<open>nvmc.h\<close>, which is not among the sources.
  The spec's zero offset table maps (clock index, motor index) to a signed 16-bit
  offset; \<open>others\<close> stands for the fields \<^verbatim>\<open>stepper.c\<close> copies and does not touch.
\<close>

record NVMC_Data =
  zeroOffsets :: "16 word list"
  others :: nat

record ('d, 'h) extern =
  MAG_IsTriggered :: "nat \<Rightarrow> 'h \<Rightarrow> bool \<times> 'h"
  STEPPER_MoveAndWait :: "32 word \<Rightarrow> 'd STEPPER_Device list \<times> 'h \<Rightarrow> 'd STEPPER_Device list \<times> 'h"
  X12_017_SetPos :: "nat \<Rightarrow> 32 word \<Rightarrow> 'h \<Rightarrow> 'h"
  X12_017_GetPos :: "nat \<Rightarrow> 'h \<Rightarrow> 32 word"
  NVMC_GetDataPtr :: "'h \<Rightarrow> NVMC_Data"
  NVMC_WriteConfig :: "NVMC_Data \<Rightarrow> 'h \<Rightarrow> err \<times> 'h"
  NVMC_GetStepperZeroOffset :: "nat \<Rightarrow> 'h \<Rightarrow> 16 word"

record ('d, 'h) world =
  STEPPER_Clocks :: "'d STEPPER_Device list"
  hw :: 'h
  calls :: "call list"

definition STEPPER_HAND_ZERO_DELAY :: "16 word" where
  "STEPPER_HAND_ZERO_DELAY = 6"

text \<open>
  The calls, as steps on the world. \<open>move_motor m f\<close> applies a planner function to
  motor \<open>m\<close> of the table; the source passes pointers into the table, so an index
  outside it does not occur and the model leaves the table alone there.
\<close>

definition move_motor ::
  "nat \<Rightarrow> ('d STEPPER_Device \<Rightarrow> 'd STEPPER_Device) \<Rightarrow> ('d, 'h) world \<Rightarrow> ('d, 'h) world" where
  "move_motor m f w =
     (if m < length (STEPPER_Clocks w)
      then w\<lparr>STEPPER_Clocks := (STEPPER_Clocks w)[m := f (STEPPER_Clocks w ! m)]\<rparr> else w)"

definition read_sensor :: "('d, 'h) extern \<Rightarrow> nat \<Rightarrow> ('d, 'h) world \<Rightarrow> bool \<times> ('d, 'h) world" where
  "read_sensor E m w = (case MAG_IsTriggered E m (hw w) of (t, h) \<Rightarrow> (t, w\<lparr>hw := h\<rparr>))"

definition move_and_wait :: "('d, 'h) extern \<Rightarrow> 32 word \<Rightarrow> ('d, 'h) world \<Rightarrow> ('d, 'h) world" where
  "move_and_wait E ms w =
     (case STEPPER_MoveAndWait E ms (STEPPER_Clocks w, hw w) of
        (cl, h) \<Rightarrow> w\<lparr>STEPPER_Clocks := cl, hw := h, calls := calls w @ [Call_MoveAndWait ms]\<rparr>)"

definition set_pos :: "('d, 'h) extern \<Rightarrow> nat \<Rightarrow> 32 word \<Rightarrow> ('d, 'h) world \<Rightarrow> ('d, 'h) world" where
  "set_pos E m v w = w\<lparr>hw := X12_017_SetPos E m v (hw w), calls := calls w @ [Call_SetPos m v]\<rparr>"

definition write_config ::
  "('d, 'h) extern \<Rightarrow> NVMC_Data \<Rightarrow> ('d, 'h) world \<Rightarrow> err \<times> ('d, 'h) world" where
  "write_config E data w =
     (case NVMC_WriteConfig E data (hw w) of
        (res, h) \<Rightarrow> (res, w\<lparr>hw := h, calls := calls w @ [Call_WriteConfig (zeroOffsets data)]\<rparr>))"

subsection \<open>Homing controller: \<^verbatim>\<open>STEPPER_MoveHandOnSensor\<close>\<close>

text \<open>
  Lines 361-389. \<open>all_on_sensor\<close> is the first inner loop (lines 367-373): it reads the
  sensors in order and stops at the first one that differs from the goal.
  \<open>move_off_sensor\<close> is the second inner loop (lines 377-381): it reads every sensor
  again and arms the motors that are not at the goal.
\<close>

fun all_on_sensor ::
  "('d, 'h) extern \<Rightarrow> nat list \<Rightarrow> bool \<Rightarrow> ('d, 'h) world \<Rightarrow> bool \<times> ('d, 'h) world" where
  "all_on_sensor E [] onSensor w = (True, w)"
| "all_on_sensor E (m # ms) onSensor w =
     (case read_sensor E m w of
        (t, w') \<Rightarrow> if t \<noteq> onSensor then (False, w') else all_on_sensor E ms onSensor w')"

fun move_off_sensor ::
  "('d, 'h) extern \<Rightarrow> nat list \<Rightarrow> bool \<Rightarrow> 32 word \<Rightarrow> 16 word \<Rightarrow> ('d, 'h) world \<Rightarrow> ('d, 'h) world" where
  "move_off_sensor E [] onSensor stepSize dly w = w"
| "move_off_sensor E (m # ms) onSensor stepSize dly w =
     (case read_sensor E m w of
        (t, w') \<Rightarrow> move_off_sensor E ms onSensor stepSize dly
           (if t \<noteq> onSensor then move_motor m (\<lambda>d. STEPPER_MoveMotorStepsRel d stepSize dly) w'
            else w'))"

text \<open>
  The outer loop \<^verbatim>\<open>for(;;)\<close> has no bound of its own, so it is a partial function:
  \<open>None\<close> is a loop that never leaves. \<^verbatim>\<open>timeoutms\<close> is an \<^verbatim>\<open>int32_t\<close> and \<^verbatim>\<open>waitms\<close> a
  \<^verbatim>\<open>uint32_t\<close>; the subtraction is done on 32 bits. The loop returns the remaining
  timeout, from which the function computes its result.
\<close>

partial_function (option) MoveHandOnSensor_loop ::
  "('d, 'h) extern \<Rightarrow> nat list \<Rightarrow> bool \<Rightarrow> 32 word \<Rightarrow> 32 word \<Rightarrow> 32 word \<Rightarrow> 16 word \<Rightarrow> ('d, 'h) world
   \<Rightarrow> (32 word \<times> ('d, 'h) world) option" where
  "MoveHandOnSensor_loop E motors onSensor stepSize timeoutms waitms dly w =
     (case all_on_sensor E motors onSensor w of
        (done, w1) \<Rightarrow>
          if done \<or> timeoutms <s 0 then Some (timeoutms, w1)
          else MoveHandOnSensor_loop E motors onSensor stepSize (timeoutms - waitms) waitms dly
                 (move_and_wait E waitms (move_off_sensor E motors onSensor stepSize dly w1)))"

declare MoveHandOnSensor_loop.simps [code]

definition STEPPER_MoveHandOnSensor ::
  "('d, 'h) extern \<Rightarrow> nat list \<Rightarrow> bool \<Rightarrow> 32 word \<Rightarrow> 32 word \<Rightarrow> 32 word \<Rightarrow> 16 word \<Rightarrow> ('d, 'h) world
   \<Rightarrow> (err \<times> ('d, 'h) world) option" where
  "STEPPER_MoveHandOnSensor E motors onSensor stepSize timeoutms waitms dly w =
     (case MoveHandOnSensor_loop E motors onSensor stepSize timeoutms waitms dly w of
        None \<Rightarrow> None
      | Some (timeoutms', w') \<Rightarrow> Some (if timeoutms' <s 0 then ERR_UNDERFLOW else ERR_OK, w'))"

text \<open>
  What the loop sees, poll by poll: \<open>poll_state \<dots> n\<close> is the world at the start of the
  \<open>n\<close>-th pass (after \<open>n\<close> rounds of moving and waiting), \<open>poll_matches \<dots> n\<close> says that
  all sensors are at the goal in that pass, and \<open>poll_timeout\<close> is the remaining
  timeout then.
\<close>

definition poll_step ::
  "('d, 'h) extern \<Rightarrow> nat list \<Rightarrow> bool \<Rightarrow> 32 word \<Rightarrow> 32 word \<Rightarrow> 16 word \<Rightarrow> ('d, 'h) world
   \<Rightarrow> ('d, 'h) world" where
  "poll_step E motors onSensor stepSize waitms dly w =
     move_and_wait E waitms
       (move_off_sensor E motors onSensor stepSize dly (snd (all_on_sensor E motors onSensor w)))"

primrec poll_state ::
  "('d, 'h) extern \<Rightarrow> nat list \<Rightarrow> bool \<Rightarrow> 32 word \<Rightarrow> 32 word \<Rightarrow> 16 word \<Rightarrow> ('d, 'h) world \<Rightarrow> nat
   \<Rightarrow> ('d, 'h) world" where
  "poll_state E motors onSensor stepSize waitms dly w 0 = w"
| "poll_state E motors onSensor stepSize waitms dly w (Suc n) =
     poll_step E motors onSensor stepSize waitms dly
       (poll_state E motors onSensor stepSize waitms dly w n)"

definition poll_matches ::
  "('d, 'h) extern \<Rightarrow> nat list \<Rightarrow> bool \<Rightarrow> 32 word \<Rightarrow> 32 word \<Rightarrow> 16 word \<Rightarrow> ('d, 'h) world \<Rightarrow> nat
   \<Rightarrow> bool" where
  "poll_matches E motors onSensor stepSize waitms dly w n =
     fst (all_on_sensor E motors onSensor (poll_state E motors onSensor stepSize waitms dly w n))"

definition poll_timeout :: "32 word \<Rightarrow> 32 word \<Rightarrow> nat \<Rightarrow> 32 word" where
  "poll_timeout timeoutms waitms n = timeoutms - of_nat n * waitms"

subsection \<open>Homing controller: zeroing and calibration\<close>

text \<open>
  \<^verbatim>\<open>STEPPER_MoveByOffset\<close> (lines 393-399); the \<^verbatim>\<open>int16_t\<close> offset is widened to the
  \<^verbatim>\<open>int32_t\<close> step count. \<^verbatim>\<open>STEPPER_SetZeroPosition\<close> (lines 401-406).
\<close>

fun move_by_offsets :: "nat list \<Rightarrow> 16 word list \<Rightarrow> 16 word \<Rightarrow> ('d, 'h) world \<Rightarrow> ('d, 'h) world" where
  "move_by_offsets (m # ms) (off # offs) dly w =
     move_by_offsets ms offs dly (move_motor m (\<lambda>d. STEPPER_MoveMotorStepsRel d (scast off) dly) w)"
| "move_by_offsets _ _ dly w = w"

definition STEPPER_MoveByOffset ::
  "('d, 'h) extern \<Rightarrow> nat list \<Rightarrow> 16 word list \<Rightarrow> 16 word \<Rightarrow> ('d, 'h) world \<Rightarrow> ('d, 'h) world" where
  "STEPPER_MoveByOffset E motors offsets dly w =
     move_and_wait E 10 (move_by_offsets motors offsets dly w)"

fun STEPPER_SetZeroPosition :: "('d, 'h) extern \<Rightarrow> nat list \<Rightarrow> ('d, 'h) world \<Rightarrow> ('d, 'h) world" where
  "STEPPER_SetZeroPosition E [] w = w"
| "STEPPER_SetZeroPosition E (m # ms) w = STEPPER_SetZeroPosition E ms (set_pos E m 0 w)"

text \<open>
  \<^verbatim>\<open>STEPPER_ZeroHand\<close> (lines 408-439). \<open>move_out_of_sensor\<close> is its first loop
  (lines 412-416). The variables \<open>res\<close> and \<open>w\<close> are rebound where the source assigns.
\<close>

fun move_out_of_sensor ::
  "('d, 'h) extern \<Rightarrow> 32 word \<Rightarrow> nat list \<Rightarrow> 16 word \<Rightarrow> ('d, 'h) world \<Rightarrow> ('d, 'h) world" where
  "move_out_of_sensor E STEPPER_CLOCK_360_STEPS [] dly w = w"
| "move_out_of_sensor E STEPPER_CLOCK_360_STEPS (m # ms) dly w =
     (case read_sensor E m w of
        (t, w') \<Rightarrow> move_out_of_sensor E STEPPER_CLOCK_360_STEPS ms dly
           (if t then move_motor m (\<lambda>d. STEPPER_MoveMotorDegreeRel STEPPER_CLOCK_360_STEPS d 90 dly) w'
            else w'))"

definition STEPPER_ZeroHand ::
  "('d, 'h) extern \<Rightarrow> 32 word \<Rightarrow> nat list \<Rightarrow> 16 word list \<Rightarrow> 16 word \<Rightarrow> ('d, 'h) world
   \<Rightarrow> (err \<times> ('d, 'h) world) option" where
  "STEPPER_ZeroHand E STEPPER_CLOCK_360_STEPS motors offsets dly w =
     (let res = ERR_OK;
          w = move_and_wait E 10 (move_out_of_sensor E STEPPER_CLOCK_360_STEPS motors dly w)
      in case STEPPER_MoveHandOnSensor E motors True 10 10000 10 dly w of
           None \<Rightarrow> None
         | Some (r1, w) \<Rightarrow>
      let res = (if r1 \<noteq> ERR_OK then ERR_FAILED else res)
      in case STEPPER_MoveHandOnSensor E motors False (- 1) 10000 10 dly w of
           None \<Rightarrow> None
         | Some (r2, w) \<Rightarrow>
      let res = (if r2 \<noteq> ERR_OK then ERR_FAILED else res)
      in case STEPPER_MoveHandOnSensor E motors True 1 10000 2 dly w of
           None \<Rightarrow> None
         | Some (r3, w) \<Rightarrow>
      let res = (if r3 \<noteq> ERR_OK then ERR_FAILED else res);
          w = STEPPER_MoveByOffset E motors offsets dly w;
          w = STEPPER_SetZeroPosition E motors w
      in Some (res, w))"

text \<open>
  \<^verbatim>\<open>STEPPER_SetOffsetFrom12\<close> (lines 460-517) works on all motors of the table.
  \<open>zero_and_set_delay\<close> is its first loop (lines 467-472). The loop of lines 500-504
  assigns every entry of \<open>zeroOffsets\<close>, the negated driver position cut to
  \<^verbatim>\<open>int16_t\<close>; the other fields of the copied configuration stay.
\<close>

fun zero_and_set_delay :: "('d, 'h) extern \<Rightarrow> nat list \<Rightarrow> ('d, 'h) world \<Rightarrow> ('d, 'h) world" where
  "zero_and_set_delay E [] w = w"
| "zero_and_set_delay E (m # ms) w =
     zero_and_set_delay E ms (move_motor m (\<lambda>d. d\<lparr>delay := 8\<rparr>) (set_pos E m 0 w))"

definition STEPPER_SetOffsetFrom12 ::
  "('d, 'h) extern \<Rightarrow> ('d, 'h) world \<Rightarrow> (err \<times> ('d, 'h) world) option" where
  "STEPPER_SetOffsetFrom12 E w =
     (let res = ERR_OK;
          motors = [0..<length (STEPPER_Clocks w)];
          w = zero_and_set_delay E motors w
      in case STEPPER_MoveHandOnSensor E motors True (- 10) 10000 5 STEPPER_HAND_ZERO_DELAY w of
           None \<Rightarrow> None
         | Some (r1, w) \<Rightarrow>
      let res = (if r1 \<noteq> ERR_OK then ERR_FAILED else res)
      in case STEPPER_MoveHandOnSensor E motors False 1 10000 2 STEPPER_HAND_ZERO_DELAY w of
           None \<Rightarrow> None
         | Some (r2, w) \<Rightarrow>
      let res = (if r2 \<noteq> ERR_OK then ERR_FAILED else res)
      in case STEPPER_MoveHandOnSensor E motors True (- 1) 10000 2 STEPPER_HAND_ZERO_DELAY w of
           None \<Rightarrow> None
         | Some (r3, w) \<Rightarrow>
      if r3 \<noteq> ERR_OK then Some (ERR_FAILED, w)
      else
        let data = NVMC_GetDataPtr E (hw w);
            data = data\<lparr>zeroOffsets := map (\<lambda>m. ucast (- X12_017_GetPos E m (hw w))) motors\<rparr>
        in case write_config E data w of
             (res, w) \<Rightarrow>
               if res \<noteq> ERR_OK then Some (res, w)
               else
                 let offsets = map (\<lambda>m. NVMC_GetStepperZeroOffset E m (hw w)) motors;
                     w = STEPPER_MoveByOffset E motors offsets STEPPER_HAND_ZERO_DELAY w
                 in Some (res, w))"

subsection \<open>Concrete devices and a simulated board\<close>

text \<open>
  A concrete device for the examples: what \<^verbatim>\<open>STEPPER_InitDevice\<close> (lines 89-115) builds
  (all counters zero, flags off), with a step callback that records the directions it
  was called with.
\<close>

definition dev0 :: "int list STEPPER_Device" where
  "dev0 = \<lparr>device = [], stepFn = (\<lambda>d s. d @ [s]), pos = 0, doSteps = 0, delay = 0,
           delayCntr = 0, accelStepCntr = 0, speedup = False, slowdown = False, queue = 0\<rparr>"

definition dev_speedup_top :: "int list STEPPER_Device" where
  "dev_speedup_top = dev0\<lparr>doSteps := 1000, accelStepCntr := 300, speedup := True\<rparr>"

definition dev_slowdown_start :: "int list STEPPER_Device" where
  "dev_slowdown_start = dev0\<lparr>doSteps := 100, slowdown := True\<rparr>"

definition dev_speedup_start :: "int list STEPPER_Device" where
  "dev_speedup_start = dev0\<lparr>doSteps := 1000, delay := 4, speedup := True\<rparr>"

definition dev_plain :: "int list STEPPER_Device" where
  "dev_plain = dev0\<lparr>pos := 7, doSteps := - 3, delay := 2\<rparr>"


definition dev_two :: "int list STEPPER_Device" where
  "dev_two = dev0\<lparr>doSteps := 2, delay := 1\<rparr>"

definition dev_at_700 :: "int list STEPPER_Device" where
  "dev_at_700 = dev0\<lparr>pos := 700\<rparr>"

definition dev_at_719 :: "int list STEPPER_Device" where
  "dev_at_719 = dev0\<lparr>pos := 719\<rparr>"

text \<open>
  A simulated board with one motor. Its sensor follows a script: each reading takes
  the next scripted value, and once the script is used up the sensor is stuck at
  \<open>sim_default\<close>. Waiting does nothing (the hand is jammed), the driver keeps a position
  counter that \<^verbatim>\<open>X12_017_SetPos\<close> overwrites, and writing the configuration always
  succeeds. \<open>sim_world\<close> starts with the driver position 100 and the stored offset 5.
\<close>

record sim_hw =
  sim_readings :: "bool list"
  sim_default :: bool
  sim_pos :: "32 word list"
  sim_flash :: NVMC_Data

definition sim_extern :: "(int list, sim_hw) extern" where
  "sim_extern =
     \<lparr>MAG_IsTriggered = (\<lambda>m h. case sim_readings h of
                                   [] \<Rightarrow> (sim_default h, h)
                                 | b # bs \<Rightarrow> (b, h\<lparr>sim_readings := bs\<rparr>)),
      STEPPER_MoveAndWait = (\<lambda>ms s. s),
      X12_017_SetPos = (\<lambda>m v h. h\<lparr>sim_pos := (sim_pos h)[m := v]\<rparr>),
      X12_017_GetPos = (\<lambda>m h. sim_pos h ! m),
      NVMC_GetDataPtr = sim_flash,
      NVMC_WriteConfig = (\<lambda>d h. (ERR_OK, h\<lparr>sim_flash := d\<rparr>)),
      NVMC_GetStepperZeroOffset = (\<lambda>m h. zeroOffsets (sim_flash h) ! m)\<rparr>"

definition sim_world :: "bool list \<Rightarrow> bool \<Rightarrow> (int list, sim_hw) world" where
  "sim_world readings stuck =
     \<lparr>STEPPER_Clocks = [dev0],
      hw = \<lparr>sim_readings = readings, sim_default = stuck, sim_pos = [100],
            sim_flash = \<lparr>zeroOffsets = [5], others = 0\<rparr>\<rparr>,
      calls = []\<rparr>"

definition sim_stuck :: "bool \<Rightarrow> (int list, sim_hw) world \<Rightarrow> bool" where
  "sim_stuck b w \<longleftrightarrow> sim_readings (hw w) = [] \<and> sim_default (hw w) = b
                    \<and> length (STEPPER_Clocks w) = 1"

section \<open>Proofs\<close>

subsection \<open>Two's complement arithmetic without overflow\<close>

lemma sint32_add:
  "- 2147483648 \<le> sint x + sint y \<Longrightarrow> sint x + sint y \<le> 2147483647
   \<Longrightarrow> sint (x + y :: 32 word) = sint x + sint y"
  by (simp add: sint_word_ariths signed_take_bit_int_eq_self)

lemma sint32_sub:
  "- 2147483648 \<le> sint x - sint y \<Longrightarrow> sint x - sint y \<le> 2147483647
   \<Longrightarrow> sint (x - y :: 32 word) = sint x - sint y"
  by (simp add: sint_word_ariths signed_take_bit_int_eq_self)

lemma sint32_range: "- 2147483648 \<le> sint (x::32 word) \<and> sint x \<le> 2147483647"
  using sint_ge[of x] sint_lt[of x] by simp

lemma sint32_neg:
  "sint x \<noteq> - 2147483648 \<Longrightarrow> sint (- x :: 32 word) = - sint x"
  using sint32_range[of x] by (simp add: sint_word_ariths signed_take_bit_int_eq_self)

lemma sint16_add:
  "- 32768 \<le> sint x + sint y \<Longrightarrow> sint x + sint y \<le> 32767
   \<Longrightarrow> sint (x + y :: 16 word) = sint x + sint y"
  by (simp add: sint_word_ariths signed_take_bit_int_eq_self)

lemma sint16_sub:
  "- 32768 \<le> sint x - sint y \<Longrightarrow> sint x - sint y \<le> 32767
   \<Longrightarrow> sint (x - y :: 16 word) = sint x - sint y"
  by (simp add: sint_word_ariths signed_take_bit_int_eq_self)

lemma sint16_range: "- 32768 \<le> sint (x::16 word) \<and> sint x \<le> 32767"
  using sint_ge[of x] sint_lt[of x] by simp

subsection \<open>What each part of the tick leaves alone\<close>

lemmas tick_defs = STEPPER_TimerClockCallback_def tick_step_def tick_ramp_def AccelDelay_def
  STEPPER_ACCEL_HIGHEST_POS_def Let_def

lemma AccelDelay_fields [simp]:
  "pos (AccelDelay mot n) = pos mot"
  "doSteps (AccelDelay mot n) = doSteps mot"
  "delay (AccelDelay mot n) = delay mot"
  "accelStepCntr (AccelDelay mot n) = accelStepCntr mot"
  "speedup (AccelDelay mot n) = speedup mot"
  "slowdown (AccelDelay mot n) = slowdown mot"
  "device (AccelDelay mot n) = device mot"
  "stepFn (AccelDelay mot n) = stepFn mot"
  by (simp_all add: AccelDelay_def)

lemma tick_ramp_fields [simp]:
  "pos (tick_ramp mot) = pos mot"
  "doSteps (tick_ramp mot) = doSteps mot"
  "delay (tick_ramp mot) = delay mot"
  "speedup (tick_ramp mot) = speedup mot"
  "slowdown (tick_ramp mot) = slowdown mot"
  "device (tick_ramp mot) = device mot"
  "stepFn (tick_ramp mot) = stepFn mot"
  by (simp_all add: tick_ramp_def Let_def)

lemma tick_step_fields [simp]:
  "delay (tick_step mot) = delay mot"
  "delayCntr (tick_step mot) = delayCntr mot"
  "speedup (tick_step mot) = speedup mot"
  "slowdown (tick_step mot) = slowdown mot"
  "accelStepCntr (tick_step mot) = accelStepCntr mot"
  "stepFn (tick_step mot) = stepFn mot"
  by (simp_all add: tick_step_def)

lemma tick_ramp_noflags: "\<not> speedup mot \<Longrightarrow> \<not> slowdown mot \<Longrightarrow> tick_ramp mot = mot"
  by (simp add: tick_ramp_def)

lemma tick_delay [simp]: "delay (snd (STEPPER_TimerClockCallback mot)) = delay mot"
  by (simp add: STEPPER_TimerClockCallback_def Let_def)

subsection \<open>The ramp counter\<close>

lemma accel_ramp_upper:
  assumes "0 \<le>s accelStepCntr mot" "accelStepCntr mot \<le>s 301"
  shows "accelStepCntr (tick_ramp mot) \<le>s 301"
  using assms
  by (auto simp: tick_ramp_def STEPPER_ACCEL_HIGHEST_POS_def Let_def word_sle_eq
      sint32_add sint32_sub)

lemma accel_ramp_lower:
  assumes "0 \<le>s accelStepCntr mot" "accelStepCntr mot \<le>s 301" "\<not> slowdown mot"
  shows "0 \<le>s accelStepCntr (tick_ramp mot)"
  using assms
  by (auto simp: tick_ramp_def STEPPER_ACCEL_HIGHEST_POS_def Let_def word_sle_eq
      sint32_add sint32_sub)

lemma accel_tick:
  "accelStepCntr (snd (STEPPER_TimerClockCallback mot)) =
     (if delayCntr mot = 0 \<and> doSteps mot \<noteq> 0
      then accelStepCntr (tick_ramp ((tick_step mot)\<lparr>delayCntr := delay mot\<rparr>))
      else accelStepCntr mot)"
  by (simp add: STEPPER_TimerClockCallback_def Let_def)

text \<open>
  C1 (as stated, refuted). The specification says that one tick keeps \<open>accelStepCntr\<close> within
  \<open>[0, 300]\<close>. At the top of the ramp the speedup branch increments 300 to 301, and at
  the start of a short move the slowdown branch takes 0 to -2.
\<close>

theorem C1_accelStepCntr_leaves_range:
  "0 \<le>s accelStepCntr dev_speedup_top \<and> accelStepCntr dev_speedup_top \<le>s 300
   \<and> accelStepCntr (snd (STEPPER_TimerClockCallback dev_speedup_top)) = 301
   \<and> \<not> accelStepCntr (snd (STEPPER_TimerClockCallback dev_speedup_top)) \<le>s 300
   \<and> 0 \<le>s accelStepCntr dev_slowdown_start \<and> accelStepCntr dev_slowdown_start \<le>s 300
   \<and> accelStepCntr (snd (STEPPER_TimerClockCallback dev_slowdown_start)) = - 2
   \<and> \<not> 0 \<le>s accelStepCntr (snd (STEPPER_TimerClockCallback dev_slowdown_start))"
  by (simp add: tick_defs dev_speedup_top_def dev_slowdown_start_def dev0_def
      word_sle_eq word_sless_alt)

text \<open>
  C1 (amended). The range of the ramp counter is \<open>[0, ACCEL_HIGHEST_POS + 1] = [0, 301]\<close>:
  for every device state with \<open>accelStepCntr\<close> in \<open>[0, 301]\<close> (so also for every state
  with the counter in \<open>[0, 300]\<close>), one tick leaves \<open>accelStepCntr\<close> at most 301. The
  speedup branch increments while the counter is at most 300, so it saturates at 301,
  the value for which the delay table adds nothing. When the slowdown flag is off the
  counter also stays non-negative, so it stays within \<open>[0, 301]\<close>.
\<close>

theorem C1_accelStepCntr_bound:
  assumes "0 \<le>s accelStepCntr mot" and "accelStepCntr mot \<le>s 301"
  shows "accelStepCntr (snd (STEPPER_TimerClockCallback mot)) \<le>s 301
       \<and> (\<not> slowdown mot \<longrightarrow> 0 \<le>s accelStepCntr (snd (STEPPER_TimerClockCallback mot)))"
proof -
  let ?m = "(tick_step mot)\<lparr>delayCntr := delay mot\<rparr>"
  have a: "0 \<le>s accelStepCntr ?m" "accelStepCntr ?m \<le>s 301"
    using assms by simp_all
  have "accelStepCntr (tick_ramp ?m) \<le>s 301"
    using a by (rule accel_ramp_upper)
  moreover have "\<not> slowdown mot \<Longrightarrow> 0 \<le>s accelStepCntr (tick_ramp ?m)"
    using a by (rule accel_ramp_lower) simp
  ultimately show ?thesis
    using assms by (simp add: accel_tick)
qed

text \<open>
  An instance: the device at the top of the ramp, on which the speedup branch runs.
\<close>

theorem C1_accelStepCntr_bound_witness:
  "0 \<le>s accelStepCntr dev_speedup_top \<and> accelStepCntr dev_speedup_top \<le>s 301
   \<and> \<not> slowdown dev_speedup_top
   \<and> accelStepCntr (snd (STEPPER_TimerClockCallback dev_speedup_top)) \<le>s 301
   \<and> 0 \<le>s accelStepCntr (snd (STEPPER_TimerClockCallback dev_speedup_top))"
proof -
  have h: "0 \<le>s accelStepCntr dev_speedup_top" "accelStepCntr dev_speedup_top \<le>s 301"
    "\<not> slowdown dev_speedup_top"
    by (simp_all add: dev_speedup_top_def dev0_def word_sle_eq)
  show ?thesis
    using h C1_accelStepCntr_bound [OF h(1,2)] by simp
qed

subsection \<open>The delay counter\<close>

lemma AccelDelay_delayCntr:
  assumes "sint (delayCntr mot) \<le> 32757"
  shows "sint (delayCntr mot) \<le> sint (delayCntr (AccelDelay mot n))
       \<and> sint (delayCntr (AccelDelay mot n)) \<le> sint (delayCntr mot) + 10"
  using assms sint16_range[of "delayCntr mot"]
  by (simp add: AccelDelay_def sint16_add)

lemma tick_ramp_delayCntr:
  assumes "sint (delayCntr mot) \<le> 32757"
  shows "sint (delayCntr mot) \<le> sint (delayCntr (tick_ramp mot))
       \<and> sint (delayCntr (tick_ramp mot)) \<le> sint (delayCntr mot) + 10"
proof -
  have *: "\<And>m::'a STEPPER_Device. delayCntr m = delayCntr mot \<Longrightarrow>
     sint (delayCntr mot) \<le> sint (delayCntr (AccelDelay m n))
       \<and> sint (delayCntr (AccelDelay m n)) \<le> sint (delayCntr mot) + 10" for n
    using AccelDelay_delayCntr[of _ n] assms by metis
  show ?thesis
    unfolding tick_ramp_def Let_def
    by (intro conjI; simp add: * del: One_nat_def)
qed

text \<open>
  C2 (as stated, refuted). The specification says that \<open>0 \<le> delayCntr \<le> delay\<close> is preserved, also by
  the ticks in which \<^verbatim>\<open>AccelDelay\<close> adds to the reloaded counter. The first tick of a
  long speedup move with \<open>delay = 4\<close> reloads the counter to 4 and adds 10.
\<close>

theorem C2_delayCntr_exceeds_delay:
  "0 \<le>s delayCntr dev_speedup_start \<and> delayCntr dev_speedup_start \<le>s delay dev_speedup_start
   \<and> delay (snd (STEPPER_TimerClockCallback dev_speedup_start)) = 4
   \<and> delayCntr (snd (STEPPER_TimerClockCallback dev_speedup_start)) = 14
   \<and> \<not> delayCntr (snd (STEPPER_TimerClockCallback dev_speedup_start))
        \<le>s delay (snd (STEPPER_TimerClockCallback dev_speedup_start))"
  by (simp add: tick_defs dev_speedup_start_def dev0_def word_sle_eq word_sless_alt)

text \<open>
  C2 (amended). For every device state with \<open>0 \<le> delay \<le> 32757\<close> (so that
  \<open>delay + 10\<close> is an \<^verbatim>\<open>int16_t\<close>), the invariant \<open>0 \<le> delayCntr \<le> delay + 10\<close> is
  preserved by every tick: the delay table adds at most 10 to the reloaded counter.
  The tick does not change \<open>delay\<close>. When neither ramp flag is set the table is not
  applied and the tick preserves \<open>0 \<le> delayCntr \<le> delay\<close>.
\<close>

theorem C2_delayCntr_bound:
  assumes "0 \<le>s delay mot" and "delay mot \<le>s 32757"
      and "0 \<le>s delayCntr mot" and "delayCntr mot \<le>s delay mot + 10"
  shows "0 \<le>s delayCntr (snd (STEPPER_TimerClockCallback mot))
       \<and> delayCntr (snd (STEPPER_TimerClockCallback mot)) \<le>s delay mot + 10
       \<and> delay (snd (STEPPER_TimerClockCallback mot)) = delay mot
       \<and> (\<not> speedup mot \<and> \<not> slowdown mot \<and> delayCntr mot \<le>s delay mot
            \<longrightarrow> delayCntr (snd (STEPPER_TimerClockCallback mot)) \<le>s delay mot)"
proof -
  have d: "0 \<le> sint (delay mot)" "sint (delay mot) \<le> 32757"
    using assms(1,2) by (simp_all add: word_sle_eq)
  have d10: "sint (delay mot + 10) = sint (delay mot) + 10"
    using d by (simp add: sint16_add)
  have c: "0 \<le> sint (delayCntr mot)" "sint (delayCntr mot) \<le> sint (delay mot) + 10"
    using assms(3,4) d10 by (simp_all add: word_sle_eq)
  show ?thesis
  proof (cases "delayCntr mot = 0")
    case False
    then have "sint (delayCntr mot) \<noteq> 0"
      by (simp add: signed_eq_0_iff)
    then have pos: "0 < sint (delayCntr mot)"
      using c by simp
    then have "sint (delayCntr mot - 1) = sint (delayCntr mot) - 1"
      using c d by (simp add: sint16_sub)
    then show ?thesis using False pos c d d10
      by (simp add: STEPPER_TimerClockCallback_def word_sle_eq)
  next
    case True
    show ?thesis
    proof (cases "doSteps mot = 0")
      case True
      then show ?thesis using \<open>delayCntr mot = 0\<close> d d10
        by (simp add: STEPPER_TimerClockCallback_def word_sle_eq)
    next
      case False
      let ?m2 = "(tick_step mot)\<lparr>delayCntr := delay (tick_step mot)\<rparr>"
      have r: "sint (delayCntr ?m2) \<le> sint (delayCntr (tick_ramp ?m2))
           \<and> sint (delayCntr (tick_ramp ?m2)) \<le> sint (delayCntr ?m2) + 10"
        by (rule tick_ramp_delayCntr) (use d in simp)
      have eq: "snd (STEPPER_TimerClockCallback mot) = tick_ramp ?m2"
        using True False by (simp add: STEPPER_TimerClockCallback_def Let_def)
      have nf: "\<not> speedup mot \<Longrightarrow> \<not> slowdown mot \<Longrightarrow> tick_ramp ?m2 = ?m2"
        by (rule tick_ramp_noflags) simp_all
      show ?thesis unfolding eq using r d d10 nf
        by (auto simp: word_sle_eq)
    qed
  qed
qed

text \<open>
  An instance: the first tick of a long speedup move with \<open>delay = 4\<close>.
\<close>

theorem C2_delayCntr_bound_witness:
  "0 \<le>s delay dev_speedup_start \<and> delay dev_speedup_start \<le>s 32757
   \<and> 0 \<le>s delayCntr dev_speedup_start
   \<and> delayCntr dev_speedup_start \<le>s delay dev_speedup_start + 10
   \<and> 0 \<le>s delayCntr (snd (STEPPER_TimerClockCallback dev_speedup_start))
   \<and> delayCntr (snd (STEPPER_TimerClockCallback dev_speedup_start))
        \<le>s delay dev_speedup_start + 10"
proof -
  have h: "0 \<le>s delay dev_speedup_start" "delay dev_speedup_start \<le>s 32757"
    "0 \<le>s delayCntr dev_speedup_start"
    "delayCntr dev_speedup_start \<le>s delay dev_speedup_start + 10"
    by (simp_all add: dev_speedup_start_def dev0_def word_sle_eq)
  show ?thesis
    using h C2_delayCntr_bound [OF h] by simp
qed

subsection \<open>The target position\<close>

lemma tick_step_sum: "pos (tick_step mot) + doSteps (tick_step mot) = pos mot + doSteps mot"
  by (simp add: tick_step_def)

lemma tick_step_sum_int:
  assumes "0 <s doSteps mot \<longrightarrow> sint (pos mot) < 2147483647"
      and "doSteps mot <s 0 \<longrightarrow> - 2147483648 < sint (pos mot)"
  shows "sint (pos (tick_step mot)) + sint (doSteps (tick_step mot))
       = sint (pos mot) + sint (doSteps mot)"
  using assms sint32_range[of "doSteps mot"] sint32_range[of "pos mot"]
  by (auto simp: tick_step_def word_sless_alt sint32_add sint32_sub)

text \<open>
  C10. For every device state, one invocation of \<^verbatim>\<open>STEPPER_TimerClockCallback\<close> leaves
  the sum \<open>pos + doSteps\<close> unchanged. The sum is the \<^verbatim>\<open>int32_t\<close> sum the program would
  compute; as a sum of integers it is unchanged as well whenever the step does not
  overflow \<open>pos\<close>.
\<close>

theorem C10_target_position_invariant:
  "pos (snd (STEPPER_TimerClockCallback mot)) + doSteps (snd (STEPPER_TimerClockCallback mot))
     = pos mot + doSteps mot
   \<and> ((0 <s doSteps mot \<longrightarrow> sint (pos mot) < 2147483647)
       \<and> (doSteps mot <s 0 \<longrightarrow> - 2147483648 < sint (pos mot))
      \<longrightarrow> sint (pos (snd (STEPPER_TimerClockCallback mot)))
            + sint (doSteps (snd (STEPPER_TimerClockCallback mot)))
          = sint (pos mot) + sint (doSteps mot))"
  by (simp add: STEPPER_TimerClockCallback_def Let_def tick_step_sum tick_step_sum_int)

text \<open>
  An instance: a device at position 7 with three steps backwards to do; the target is 4.
\<close>

theorem C10_target_position_invariant_witness:
  "\<not> 0 <s doSteps dev_plain \<and> doSteps dev_plain <s 0 \<and> - 2147483648 < sint (pos dev_plain)
   \<and> sint (pos dev_plain) + sint (doSteps dev_plain) = 4
   \<and> sint (pos (snd (STEPPER_TimerClockCallback dev_plain)))
       + sint (doSteps (snd (STEPPER_TimerClockCallback dev_plain))) = 4"
proof -
  have h: "\<not> 0 <s doSteps dev_plain" "doSteps dev_plain <s 0"
    "- 2147483648 < sint (pos dev_plain)" "sint (pos dev_plain) + sint (doSteps dev_plain) = 4"
    by (simp_all add: dev_plain_def dev0_def word_sless_alt)
  show ?thesis
    using h C10_target_position_invariant [of dev_plain] by simp
qed

subsection \<open>Running a move without ramp\<close>

lemma tick_plain:
  assumes "\<not> speedup mot" "\<not> slowdown mot"
  shows "STEPPER_TimerClockCallback mot =
    (if delayCntr mot = 0 then
       (if doSteps mot \<noteq> 0 then (True, (tick_step mot)\<lparr>delayCntr := delay mot\<rparr>)
        else (False, mot))
     else (True, mot\<lparr>delayCntr := delayCntr mot - 1\<rparr>))"
  using assms by (simp add: STEPPER_TimerClockCallback_def Let_def tick_ramp_noflags)

lemma tick_step_abs:
  assumes "doSteps mot \<noteq> 0"
  shows "\<bar>sint (doSteps (tick_step mot))\<bar> = \<bar>sint (doSteps mot)\<bar> - 1"
proof (cases "0 <s doSteps mot")
  case True
  then have p: "0 < sint (doSteps mot)" by (simp add: word_sless_alt)
  have "sint (doSteps mot - 1) = sint (doSteps mot) - sint (1::32 word)"
    by (rule sint32_sub) (use p sint32_range[of "doSteps mot"] in simp_all)
  then show ?thesis using True p by (simp add: tick_step_def)
next
  case False
  then have "sint (doSteps mot) \<le> 0" by (simp add: word_sless_alt)
  moreover have "sint (doSteps mot) \<noteq> 0" using assms by (simp add: signed_eq_0_iff)
  ultimately have n: "sint (doSteps mot) < 0" by simp
  then have lt: "doSteps mot <s 0" by (simp add: word_sless_alt)
  have "sint (doSteps mot + 1) = sint (doSteps mot) + sint (1::32 word)"
    by (rule sint32_add) (use n sint32_range[of "doSteps mot"] in simp_all)
  then show ?thesis using False lt n by (simp add: tick_step_def)
qed

lemma plain_tick:
  assumes "plain_inv mot" "doSteps mot \<noteq> 0"
  shows "fst (STEPPER_TimerClockCallback mot)"
    and "plain_inv (snd (STEPPER_TimerClockCallback mot))"
    and "Suc (ticks_to_go (snd (STEPPER_TimerClockCallback mot))) = ticks_to_go mot"
proof -
  have f: "\<not> speedup mot" "\<not> slowdown mot" using assms(1) by (simp_all add: plain_inv_def)
  have c: "0 \<le> sint (delayCntr mot)" "sint (delayCntr mot) \<le> sint (delay mot)"
    using assms(1) by (simp_all add: plain_inv_def word_sle_eq)
  note t = tick_plain[OF f]
  show "fst (STEPPER_TimerClockCallback mot)" using assms(2) by (simp add: t)
  show "plain_inv (snd (STEPPER_TimerClockCallback mot))"
  proof (cases "delayCntr mot = 0")
    case True
    then show ?thesis using assms f c by (simp add: t plain_inv_def word_sle_eq)
  next
    case False
    then have "sint (delayCntr mot) \<noteq> 0" by (simp add: signed_eq_0_iff)
    then have p: "0 < sint (delayCntr mot)" using c by simp
    have "sint (delayCntr mot - 1) = sint (delayCntr mot) - sint (1::16 word)"
      by (rule sint16_sub) (use p sint16_range[of "delayCntr mot"] in simp_all)
    then show ?thesis using False f c p by (simp add: t plain_inv_def word_sle_eq)
  qed
  show "Suc (ticks_to_go (snd (STEPPER_TimerClockCallback mot))) = ticks_to_go mot"
  proof (cases "delayCntr mot = 0")
    case True
    let ?n = "nat \<bar>sint (doSteps mot)\<bar>"
    have a: "nat \<bar>sint (doSteps (tick_step mot))\<bar> = ?n - 1"
      using tick_step_abs[OF assms(2)] by simp
    have "sint (doSteps mot) \<noteq> 0" using assms(2) by (simp add: signed_eq_0_iff)
    then have n1: "1 \<le> ?n" by simp
    show ?thesis
    proof (cases "doSteps (tick_step mot) = 0")
      case z: True
      then have "?n - 1 = 0" using a by simp
      then show ?thesis using True z assms(2) by (simp add: t ticks_to_go_def)
    next
      case nz: False
      then have "sint (doSteps (tick_step mot)) \<noteq> 0" by (simp add: signed_eq_0_iff)
      then have "nat \<bar>sint (doSteps (tick_step mot))\<bar> \<noteq> 0" by simp
      then have "?n - 1 \<noteq> 0" using a by simp
      then have m: "?n - 1 = Suc (?n - 1 - 1)" by simp
      have "(?n - 1) * (nat (sint (delay mot)) + 1)
              = nat (sint (delay mot)) + (?n - 1 - 1) * (nat (sint (delay mot)) + 1) + 1"
        by (subst m) simp
      then show ?thesis using True nz assms(2) a
        by (simp add: t ticks_to_go_def)
    qed
  next
    case False
    then have "sint (delayCntr mot) \<noteq> 0" by (simp add: signed_eq_0_iff)
    then have p: "0 < sint (delayCntr mot)" using c by simp
    have "sint (delayCntr mot - 1) = sint (delayCntr mot) - sint (1::16 word)"
      by (rule sint16_sub) (use p sint16_range[of "delayCntr mot"] in simp_all)
    then show ?thesis using False assms(2) p
      by (simp add: t ticks_to_go_def nat_diff_distrib Suc_nat_eq_nat_zadd1)
  qed
qed

lemma ticks_to_go_0: "ticks_to_go mot = 0 \<longleftrightarrow> doSteps mot = 0"
  by (simp add: ticks_to_go_def)

lemma run_ticks_delay [simp]: "delay (run_ticks k mot) = delay mot"
  by (induction k arbitrary: mot) simp_all

lemma run_ticks_plain:
  assumes "plain_inv mot" "k \<le> ticks_to_go mot"
  shows "plain_inv (run_ticks k mot) \<and> ticks_to_go (run_ticks k mot) + k = ticks_to_go mot"
  using assms
proof (induction k arbitrary: mot)
  case 0
  then show ?case by simp
next
  case (Suc k)
  then have nz: "doSteps mot \<noteq> 0" by (auto simp: ticks_to_go_def)
  note p = plain_tick[OF Suc.prems(1) nz]
  have "k \<le> ticks_to_go (snd (STEPPER_TimerClockCallback mot))"
    using p(3) Suc.prems(2) by simp
  from Suc.IH[OF p(2) this] p(3) show ?case by simp
qed

text \<open>
  C8 (as stated, refuted). The specification says that \<open>|doSteps\<^sub>0|\<close> invocations reduce
  \<open>doSteps\<close> to 0. With \<open>doSteps\<^sub>0 = 2\<close> and \<open>delay = 1\<close> the first invocation steps and
  reloads the counter, the second only counts down: after two invocations one step is
  still to do.
\<close>

theorem C8_delay_stretches_move:
  "doSteps dev_two = 2 \<and> delay dev_two = 1 \<and> delayCntr dev_two = 0
   \<and> \<not> speedup dev_two \<and> \<not> slowdown dev_two
   \<and> nat \<bar>sint (doSteps dev_two)\<bar> = 2
   \<and> doSteps (run_ticks 2 dev_two) = 1"
  by code_simp

text \<open>
  C8 (amended). For every device armed while idle (\<open>delayCntr = 0\<close>) with
  \<open>doSteps = doSteps\<^sub>0 \<noteq> 0\<close>, a delay \<open>\<ge> 0\<close> and both ramp flags off, the engine makes one
  step every \<open>delay + 1\<close> invocations: after exactly
  \<open>(|doSteps\<^sub>0| - 1) * (delay + 1) + 1\<close> invocations \<open>doSteps\<close> is 0 and not before, each of
  these invocations returns true, and \<open>delayCntr\<close> lies in \<open>[0, delay]\<close> before and
  after each of them. With \<open>delay = 0\<close> the number of invocations is \<open>|doSteps\<^sub>0|\<close>.
\<close>

theorem C8_ticks_until_idle:
  assumes "doSteps mot \<noteq> 0" and "delayCntr mot = 0" and "0 \<le>s delay mot"
      and "\<not> speedup mot" and "\<not> slowdown mot"
  shows "doSteps (run_ticks ((nat \<bar>sint (doSteps mot)\<bar> - 1) * (nat (sint (delay mot)) + 1) + 1) mot) = 0
       \<and> (\<forall>k < (nat \<bar>sint (doSteps mot)\<bar> - 1) * (nat (sint (delay mot)) + 1) + 1.
             fst (STEPPER_TimerClockCallback (run_ticks k mot)) \<and> doSteps (run_ticks k mot) \<noteq> 0)
       \<and> (\<forall>k \<le> (nat \<bar>sint (doSteps mot)\<bar> - 1) * (nat (sint (delay mot)) + 1) + 1.
             0 \<le>s delayCntr (run_ticks k mot) \<and> delayCntr (run_ticks k mot) \<le>s delay mot)
       \<and> (delay mot = 0 \<longrightarrow>
             (nat \<bar>sint (doSteps mot)\<bar> - 1) * (nat (sint (delay mot)) + 1) + 1 = nat \<bar>sint (doSteps mot)\<bar>)"
proof -
  let ?T = "(nat \<bar>sint (doSteps mot)\<bar> - 1) * (nat (sint (delay mot)) + 1) + 1"
  have inv: "plain_inv mot" using assms by (simp add: plain_inv_def)
  have T: "ticks_to_go mot = ?T" using assms by (simp add: ticks_to_go_def)
  have run: "k \<le> ?T \<Longrightarrow> plain_inv (run_ticks k mot) \<and> ticks_to_go (run_ticks k mot) + k = ?T" for k
    using run_ticks_plain[OF inv, of k] T by simp
  have 1: "doSteps (run_ticks ?T mot) = 0"
    using run[of ?T] by (simp add: ticks_to_go_0)
  have 2: "fst (STEPPER_TimerClockCallback (run_ticks k mot)) \<and> doSteps (run_ticks k mot) \<noteq> 0" if "k < ?T" for k
  proof -
    have r: "plain_inv (run_ticks k mot)" "ticks_to_go (run_ticks k mot) + k = ?T"
      using run[of k] that by simp_all
    then have "ticks_to_go (run_ticks k mot) \<noteq> 0" using that by linarith
    then have nz: "doSteps (run_ticks k mot) \<noteq> 0" by (simp add: ticks_to_go_0)
    then show ?thesis using plain_tick(1)[OF r(1)] by simp
  qed
  have 3: "0 \<le>s delayCntr (run_ticks k mot) \<and> delayCntr (run_ticks k mot) \<le>s delay mot" if "k \<le> ?T" for k
    using run[OF that] by (simp add: plain_inv_def)
  have 4: "delay mot = 0 \<longrightarrow> ?T = nat \<bar>sint (doSteps mot)\<bar>"
    using assms(1) by (simp add: signed_eq_0_iff)
  show ?thesis using 1 2 3 4 by blast
qed

text \<open>
  An instance: three steps backwards with \<open>delay = 2\<close> take \<open>2 * 3 + 1 = 7\<close> invocations.
\<close>

theorem C8_ticks_until_idle_witness:
  "doSteps dev_plain \<noteq> 0 \<and> delayCntr dev_plain = 0 \<and> 0 \<le>s delay dev_plain
   \<and> \<not> speedup dev_plain \<and> \<not> slowdown dev_plain
   \<and> doSteps (run_ticks 7 dev_plain) = 0
   \<and> fst (STEPPER_TimerClockCallback (run_ticks 6 dev_plain))
   \<and> doSteps (run_ticks 6 dev_plain) \<noteq> 0"
proof -
  have h: "doSteps dev_plain \<noteq> 0" "delayCntr dev_plain = 0" "0 \<le>s delay dev_plain"
    "\<not> speedup dev_plain" "\<not> slowdown dev_plain"
    by (simp_all add: dev_plain_def dev0_def word_sle_eq)
  have T: "(nat \<bar>sint (doSteps dev_plain)\<bar> - 1) * (nat (sint (delay dev_plain)) + 1) + 1 = 7"
    by (simp add: dev_plain_def dev0_def)
  note r = C8_ticks_until_idle [OF h, unfolded T]
  from r have "doSteps (run_ticks 7 dev_plain) = 0" by blast
  moreover from r have "fst (STEPPER_TimerClockCallback (run_ticks 6 dev_plain))
      \<and> doSteps (run_ticks 6 dev_plain) \<noteq> 0" by simp
  ultimately show ?thesis using h by blast
qed

subsection \<open>The move planner\<close>

lemma sint32_of_int: "- 2147483648 \<le> x \<Longrightarrow> x \<le> 2147483647 \<Longrightarrow> sint (word_of_int x :: 32 word) = x"
  by (simp add: signed_of_int signed_take_bit_int_eq_self)

lemma sint32_mult:
  "- 2147483648 \<le> sint x * sint y \<Longrightarrow> sint x * sint y \<le> 2147483647
   \<Longrightarrow> sint (x * y :: 32 word) = sint x * sint y"
  by (simp add: sint_word_ariths signed_take_bit_int_eq_self)

lemma sint_div_s32:
  assumes "sint b \<noteq> - 1 \<or> sint a \<noteq> - 2147483648"
  shows "sint (div_s32 a b) = sint a sdiv sint b"
proof -
  have r: "sint a sdiv sint b \<in> {- \<bar>sint a\<bar>..\<bar>sint a\<bar>}" by (rule sdiv_int_range)
  have "sint a sdiv sint b \<le> 2147483647"
  proof (cases "sint a = - 2147483648")
    case True
    then have "sint b \<noteq> - 1" using assms by simp
    show ?thesis
    proof (cases "0 \<le> sint b")
      case True
      then have "sint a sdiv sint b \<le> 0" using \<open>sint a = - 2147483648\<close>
        by (simp add: signed_divide_int_def sgn_if pos_imp_zdiv_nonneg_iff)
      then show ?thesis by simp
    next
      case False
      then have "2 \<le> \<bar>sint b\<bar>" using \<open>sint b \<noteq> - 1\<close> by simp
      then have "\<bar>sint a\<bar> div \<bar>sint b\<bar> \<le> \<bar>sint a\<bar> div 2"
        by (intro zdiv_mono2) simp_all
      then show ?thesis using False True by (simp add: signed_divide_int_def sgn_if)
    qed
  next
    case False
    then show ?thesis using r sint32_range[of a] by auto
  qed
  moreover have "- 2147483648 \<le> sint a sdiv sint b"
    using r sint32_range[of a] by auto
  ultimately show ?thesis
    by (simp add: div_s32_def sint32_of_int)
qed

lemma sint_mod_s32:
  assumes "sint b \<noteq> 0"
  shows "sint (mod_s32 a b) = sint a smod sint b"
proof -
  have "sint a smod sint b \<in> {- \<bar>sint b\<bar> + 1..\<bar>sint b\<bar> - 1}"
    using assms by (rule smod_int_range)
  then have "- 2147483648 \<le> sint a smod sint b" "sint a smod sint b \<le> 2147483647"
    using sint32_range[of b] by auto
  then show ?thesis
    unfolding mod_s32_def by (rule sint32_of_int)
qed

lemma sint_clock_degree:
  assumes "- 360 \<le> sint degree"
  shows "0 \<le> sint (clock_degree degree) \<and> sint (clock_degree degree) < 360"
proof -
  let ?d = "if degree <s 0 then 360 + degree else degree"
  have d: "0 \<le> sint ?d"
    using assms sint32_range[of degree] by (simp add: word_sless_alt sint32_add)
  have "sint (clock_degree degree) = sint ?d smod 360"
    unfolding clock_degree_def by (subst sint_mod_s32) simp_all
  also have "\<dots> = sint ?d mod 360" using d by (simp add: smod_mod_positive)
  finally show ?thesis by simp
qed

lemma sint_clock_targetPos:
  assumes "- 360 \<le> sint degree" "0 < sint N" "sint N * 359 \<le> 2147483647"
  shows "0 \<le> sint (clock_targetPos N degree) \<and> sint (clock_targetPos N degree) < sint N"
proof -
  let ?d = "sint (clock_degree degree)"
  have d: "0 \<le> ?d" "?d \<le> 359" using sint_clock_degree[OF assms(1)] by simp_all
  have "sint N * ?d \<le> sint N * 359" using d assms(2) by (intro mult_left_mono) simp_all
  then have m: "0 \<le> sint N * ?d" "sint N * ?d \<le> 2147483647"
    using assms d by (simp, linarith)
  have "sint (N * clock_degree degree) = sint N * ?d"
    using m by (simp add: sint32_mult)
  then have "sint (clock_targetPos N degree) = (sint N * ?d) sdiv 360"
    unfolding clock_targetPos_def by (subst sint_div_s32) simp_all
  also have "\<dots> = (sint N * ?d) div 360"
    using m by (simp add: signed_divide_int_def sgn_if)
  finally have e: "sint (clock_targetPos N degree) = (sint N * ?d) div 360" .
  have "sint N * ?d < sint N * 360" using d assms(2) by simp
  then have "(sint N * ?d) div 360 < sint N" by simp
  moreover have "0 \<le> (sint N * ?d) div 360" using m by simp
  ultimately show ?thesis using e by simp
qed

lemma sint_clock_currPos:
  assumes "0 < sint N"
  shows "0 \<le> sint (clock_currPos N p) \<and> sint (clock_currPos N p) < sint N"
proof -
  have n0: "sint N \<noteq> 0" using assms by simp
  have r: "sint p smod sint N \<in> {- \<bar>sint N\<bar> + 1..\<bar>sint N\<bar> - 1}"
    using n0 by (rule smod_int_range)
  have e: "sint (mod_s32 p N) = sint p smod sint N" using n0 by (rule sint_mod_s32)
  show ?thesis
    using r assms sint32_range[of N]
    by (auto simp: clock_currPos_def Let_def word_sless_alt e sint32_add)
qed

lemma sint_half32: "0 < sint N \<Longrightarrow> sint (div_s32 N 2) = sint N div 2"
  by (subst sint_div_s32) (simp_all add: signed_divide_int_def sgn_if)

lemma clock_steps_policy:
  assumes N: "0 < sint N" "sint N * 359 \<le> 2147483647"
      and t: "0 \<le> sint t" "sint t < sint N"
      and c: "0 \<le> sint c" "sint c < sint N"
  shows "0 \<le> sint (clock_steps N STEPPER_MOVE_MODE_CW t c)"
    and "sint (clock_steps N STEPPER_MOVE_MODE_CCW t c) \<le> 0"
    and "\<bar>sint (clock_steps N STEPPER_MOVE_MODE_SHORT t c)\<bar> \<le> sint N div 2"
proof -
  have Nb: "sint N \<le> 5981848" using N(2) by linarith
  have s: "sint (t - c) = sint t - sint c"
    by (rule sint32_sub) (use t c Nb in linarith)+
  have h: "sint (div_s32 N 2) = sint N div 2" using N(1) by (rule sint_half32)
  have nh: "sint (- div_s32 N 2) = - (sint N div 2)"
    unfolding h[symmetric] by (rule sint32_neg) (use h N(1) in linarith)
  have nN: "sint (- N) = - sint N"
    by (rule sint32_neg) (use N(1) in linarith)
  have cw: "sint (N + (t - c)) = sint N + (sint t - sint c)"
    unfolding s[symmetric] by (rule sint32_add) (use s t c Nb N(1) in linarith)+
  have ccw: "sint (- N + (t - c)) = - sint N + (sint t - sint c)"
    unfolding s[symmetric] nN[symmetric] by (rule sint32_add) (use s nN t c Nb N(1) in linarith)+
  have a: "sint (N - (t - c)) = sint N - (sint t - sint c)"
    unfolding s[symmetric] by (rule sint32_sub) (use s t c Nb N(1) in linarith)+
  have b: "sint (- N - (t - c)) = - sint N - (sint t - sint c)"
    unfolding s[symmetric] nN[symmetric] by (rule sint32_sub) (use s nN t c Nb N(1) in linarith)+
  have a': "sint (- (N - (t - c))) = - (sint N - (sint t - sint c))"
    unfolding a[symmetric] by (rule sint32_neg) (use a t c Nb N(1) in linarith)
  have b': "sint (- (- N - (t - c))) = - (- sint N - (sint t - sint c))"
    unfolding b[symmetric] by (rule sint32_neg) (use b t c Nb N(1) in linarith)
  show "0 \<le> sint (clock_steps N STEPPER_MOVE_MODE_CW t c)"
  proof (cases "t - c <s 0")
    case True
    then have "clock_steps N STEPPER_MOVE_MODE_CW t c = N + (t - c)"
      by (simp only: clock_steps_def Let_def if_True if_False simp_thms STEPPER_MoveMode_e.simps)
    then show ?thesis using cw t c by simp
  next
    case False
    then have "clock_steps N STEPPER_MOVE_MODE_CW t c = t - c"
      by (simp only: clock_steps_def Let_def if_True if_False simp_thms STEPPER_MoveMode_e.simps)
    then show ?thesis using False s by (simp add: word_sless_alt)
  qed
  show "sint (clock_steps N STEPPER_MOVE_MODE_CCW t c) \<le> 0"
  proof (cases "0 <s t - c")
    case True
    then have "clock_steps N STEPPER_MOVE_MODE_CCW t c = - N + (t - c)"
      by (simp only: clock_steps_def Let_def if_True if_False simp_thms STEPPER_MoveMode_e.simps)
    then show ?thesis using ccw t c by simp
  next
    case False
    then have "clock_steps N STEPPER_MOVE_MODE_CCW t c = t - c"
      by (simp only: clock_steps_def Let_def if_True if_False simp_thms STEPPER_MoveMode_e.simps)
    then show ?thesis using False s by (simp add: word_sless_alt)
  qed
  show "\<bar>sint (clock_steps N STEPPER_MOVE_MODE_SHORT t c)\<bar> \<le> sint N div 2"
  proof (cases "div_s32 N 2 <s t - c")
    case True
    then have "clock_steps N STEPPER_MOVE_MODE_SHORT t c = - (N - (t - c))"
      by (simp only: clock_steps_def Let_def if_True if_False simp_thms STEPPER_MoveMode_e.simps)
    moreover have "sint N div 2 < sint t - sint c"
      using True h s by (simp add: word_sless_alt)
    ultimately show ?thesis using a' t c by simp
  next
    case False
    then have le: "sint t - sint c \<le> sint N div 2"
      using h s by (simp add: word_sless_alt)
    show ?thesis
    proof (cases "t - c <s - div_s32 N 2")
      case True
      then have "clock_steps N STEPPER_MOVE_MODE_SHORT t c = - (- N - (t - c))"
        using False by (simp only: clock_steps_def Let_def if_True if_False simp_thms STEPPER_MoveMode_e.simps)
      moreover have "sint t - sint c < - (sint N div 2)"
        using True nh s by (simp add: word_sless_alt)
      ultimately show ?thesis using b' t c by simp
    next
      case F2: False
      then have "clock_steps N STEPPER_MOVE_MODE_SHORT t c = t - c"
        using False by (simp only: clock_steps_def Let_def if_True if_False simp_thms STEPPER_MoveMode_e.simps)
      moreover have "- (sint N div 2) \<le> sint t - sint c"
        using F2 nh s by (simp add: word_sless_alt)
      ultimately show ?thesis using le s by simp
    qed
  qed
qed

lemma clock_steps_target:
  assumes N: "0 < sint N" "sint N * 359 \<le> 2147483647"
      and t: "0 \<le> sint t" "sint t < sint N"
      and c: "0 \<le> sint c" "sint c < sint N"
  shows "sint (clock_steps N mode t c) = sint t - sint c
       \<or> sint (clock_steps N mode t c) = sint t - sint c + sint N
       \<or> sint (clock_steps N mode t c) = sint t - sint c - sint N"
proof -
  have Nb: "sint N \<le> 5981848" using N(2) by linarith
  have s: "sint (t - c) = sint t - sint c"
    by (rule sint32_sub) (use t c Nb in linarith)+
  have nN: "sint (- N) = - sint N"
    by (rule sint32_neg) (use N(1) in linarith)
  have cw: "sint (N + (t - c)) = sint N + (sint t - sint c)"
    unfolding s[symmetric] by (rule sint32_add) (use s t c Nb N(1) in linarith)+
  have ccw: "sint (- N + (t - c)) = - sint N + (sint t - sint c)"
    unfolding s[symmetric] nN[symmetric] by (rule sint32_add) (use s nN t c Nb N(1) in linarith)+
  have a: "sint (N - (t - c)) = sint N - (sint t - sint c)"
    unfolding s[symmetric] by (rule sint32_sub) (use s t c Nb N(1) in linarith)+
  have b: "sint (- N - (t - c)) = - sint N - (sint t - sint c)"
    unfolding s[symmetric] nN[symmetric] by (rule sint32_sub) (use s nN t c Nb N(1) in linarith)+
  have a': "sint (- (N - (t - c))) = - (sint N - (sint t - sint c))"
    unfolding a[symmetric] by (rule sint32_neg) (use a t c Nb N(1) in linarith)
  have b': "sint (- (- N - (t - c))) = - (- sint N - (sint t - sint c))"
    unfolding b[symmetric] by (rule sint32_neg) (use b t c Nb N(1) in linarith)
  have "clock_steps N mode t c = t - c \<or> clock_steps N mode t c = N + (t - c)
      \<or> clock_steps N mode t c = - N + (t - c) \<or> clock_steps N mode t c = - (N - (t - c))
      \<or> clock_steps N mode t c = - (- N - (t - c))"
    by (cases "mode = STEPPER_MOVE_MODE_CW"; cases "mode = STEPPER_MOVE_MODE_CCW";
        cases "t - c <s 0"; cases "0 <s t - c"; cases "div_s32 N 2 <s t - c";
        cases "t - c <s - div_s32 N 2";
        simp only: clock_steps_def Let_def if_True if_False simp_thms)
  then show ?thesis
    using s cw ccw a' b' by (elim disjE) simp_all
qed

text \<open>
  For the degrees from -360 upwards, which lines 270-273 bring into \<open>[0, 360)\<close>, the
  planner obeys the direction policy: mode CW gives \<open>doSteps \<ge> 0\<close>, mode CCW gives
  \<open>doSteps \<le> 0\<close>, the shortest mode gives \<open>|doSteps| \<le> STEPPER_CLOCK_360_STEPS / 2\<close>, and in
  every mode the move ends on the target step: the current step plus \<open>doSteps\<close> is the
  target step modulo the revolution length.
\<close>

lemma direction_policy_from_minus_360:
  assumes "0 <s N" and "sint N * 359 \<le> 2147483647" and "- 360 \<le>s degree"
  shows "0 \<le>s doSteps (STEPPER_MoveClockDegreeAbs N dev degree STEPPER_MOVE_MODE_CW dly su sd)
       \<and> doSteps (STEPPER_MoveClockDegreeAbs N dev degree STEPPER_MOVE_MODE_CCW dly su sd) \<le>s 0
       \<and> \<bar>sint (doSteps (STEPPER_MoveClockDegreeAbs N dev degree STEPPER_MOVE_MODE_SHORT dly su sd))\<bar>
           \<le> sint (div_s32 N 2)
       \<and> (sint (clock_currPos N (pos dev))
             + sint (doSteps (STEPPER_MoveClockDegreeAbs N dev degree mode dly su sd))) mod sint N
           = sint (clock_targetPos N degree)"
proof -
  have N: "0 < sint N" using assms(1) by (simp add: word_sless_alt)
  have d: "- 360 \<le> sint degree" using assms(3) by (simp add: word_sle_eq)
  have t: "0 \<le> sint (clock_targetPos N degree)" "sint (clock_targetPos N degree) < sint N"
    using sint_clock_targetPos[OF d N assms(2)] by simp_all
  have c: "0 \<le> sint (clock_currPos N (pos dev))" "sint (clock_currPos N (pos dev)) < sint N"
    using sint_clock_currPos[OF N] by simp_all
  note p = clock_steps_policy[OF N assms(2) t c]
  have g: "doSteps (STEPPER_MoveClockDegreeAbs N dev degree mode dly su sd)
         = clock_steps N mode (clock_targetPos N degree) (clock_currPos N (pos dev))"
    by (simp add: STEPPER_MoveClockDegreeAbs_def Let_def)
  have tm: "sint (clock_targetPos N degree) mod sint N = sint (clock_targetPos N degree)"
    using t by simp
  have "(sint (clock_currPos N (pos dev))
          + sint (clock_steps N mode (clock_targetPos N degree) (clock_currPos N (pos dev)))) mod sint N
        = sint (clock_targetPos N degree)"
    using clock_steps_target[OF N assms(2) t c, of mode]
  proof (elim disjE)
    assume "sint (clock_steps N mode (clock_targetPos N degree) (clock_currPos N (pos dev))) =
      sint (clock_targetPos N degree) - sint (clock_currPos N (pos dev))"
    then show ?thesis using tm by simp
  next
    assume "sint (clock_steps N mode (clock_targetPos N degree) (clock_currPos N (pos dev))) =
      sint (clock_targetPos N degree) - sint (clock_currPos N (pos dev)) + sint N"
    then show ?thesis using tm by simp
  next
    assume e: "sint (clock_steps N mode (clock_targetPos N degree) (clock_currPos N (pos dev))) =
      sint (clock_targetPos N degree) - sint (clock_currPos N (pos dev)) - sint N"
    have "(sint (clock_targetPos N degree) - sint N) mod sint N = sint (clock_targetPos N degree)"
      using tm by simp
    then show ?thesis unfolding e by (simp add: algebra_simps)
  qed
  then show ?thesis
    using p by (simp add: g STEPPER_MoveClockDegreeAbs_def Let_def word_sle_eq sint_half32[OF N])
qed

lemmas planner_defs = STEPPER_MoveClockDegreeAbs_def clock_steps_def clock_currPos_def
  clock_targetPos_def clock_degree_def div_s32_def mod_s32_def Let_def

text \<open>
  C5 (the code at the failing input). Below -360 the degree stays negative after lines
  270-273 (see C6), the target step is negative, and the direction policy fails. With
  720 steps per revolution: degree -450 in mode CW from position 700 sets
  \<open>doSteps = -160\<close>, which is negative, and degree -719 in the shortest mode from position
  719 sets \<open>doSteps = -717\<close>, more than half a revolution.
\<close>

theorem C5_direction_policy_fails_below_minus_360:
  "doSteps (STEPPER_MoveClockDegreeAbs 720 dev_at_700 (- 450) STEPPER_MOVE_MODE_CW 0 False False) = - 160
   \<and> \<not> 0 \<le>s doSteps (STEPPER_MoveClockDegreeAbs 720 dev_at_700 (- 450) STEPPER_MOVE_MODE_CW 0 False False)
   \<and> doSteps (STEPPER_MoveClockDegreeAbs 720 dev_at_719 (- 719) STEPPER_MOVE_MODE_SHORT 0 False False) = - 717
   \<and> sint (div_s32 720 2) = 360
   \<and> \<not> \<bar>sint (doSteps (STEPPER_MoveClockDegreeAbs 720 dev_at_719 (- 719) STEPPER_MOVE_MODE_SHORT 0 False False))\<bar>
         \<le> sint (div_s32 720 2)"
  by (simp add: planner_defs dev_at_700_def dev_at_719_def dev0_def word_sless_alt word_sle_eq)

text \<open>
  C6 (the code at the failing input). The degree -450 is below -360: line 271 makes it
  -90, which is still negative, and the C remainder of line 273 keeps the sign. The
  target step for a revolution of 720 steps is -180, and from position 700 the
  clockwise move gets a negative step count.
\<close>

theorem C6_degree_below_minus_360:
  "clock_degree (- 450) = - 90
   \<and> clock_targetPos 720 (- 450) = - 180
   \<and> doSteps (STEPPER_MoveClockDegreeAbs 720 dev_at_700 (- 450) STEPPER_MOVE_MODE_CW 0 False False)
       = - 160"
  by (simp add: planner_defs dev_at_700_def dev0_def word_sless_alt)

text \<open>
  C9. With 720 steps per revolution and the current position 0: degree 90 in mode CW
  sets \<open>doSteps = 180\<close>; degree -90 in mode CW is normalized to 270 and sets
  \<open>doSteps = 540\<close>; degree 270 in the shortest mode sets \<open>doSteps = -180\<close>.
\<close>

theorem C9_concrete_scenario:
  "pos dev0 = 0
   \<and> doSteps (STEPPER_MoveClockDegreeAbs 720 dev0 90 STEPPER_MOVE_MODE_CW dly su sd) = 180
   \<and> clock_degree (- 90) = 270
   \<and> doSteps (STEPPER_MoveClockDegreeAbs 720 dev0 (- 90) STEPPER_MOVE_MODE_CW dly su sd) = 540
   \<and> doSteps (STEPPER_MoveClockDegreeAbs 720 dev0 270 STEPPER_MOVE_MODE_SHORT dly su sd) = - 180"
  by (simp add: planner_defs dev0_def word_sless_alt)

subsection \<open>The polling loop\<close>

lemma loop_unroll:
  assumes "\<forall>i<n. \<not> poll_matches E motors onSensor stepSize waitms dly w i
                \<and> \<not> poll_timeout timeoutms waitms i <s 0"
  shows "MoveHandOnSensor_loop E motors onSensor stepSize timeoutms waitms dly w
       = MoveHandOnSensor_loop E motors onSensor stepSize (poll_timeout timeoutms waitms n) waitms dly
           (poll_state E motors onSensor stepSize waitms dly w n)"
  using assms
proof (induction n)
  case 0
  then show ?case by (simp add: poll_timeout_def)
next
  case (Suc n)
  let ?w = "poll_state E motors onSensor stepSize waitms dly w n"
  have n: "\<not> fst (all_on_sensor E motors onSensor ?w)" "\<not> poll_timeout timeoutms waitms n <s 0"
    using Suc.prems by (simp_all add: poll_matches_def)
  have t: "poll_timeout timeoutms waitms n - waitms = poll_timeout timeoutms waitms (Suc n)"
    by (simp add: poll_timeout_def algebra_simps)
  have "MoveHandOnSensor_loop E motors onSensor stepSize timeoutms waitms dly w
      = MoveHandOnSensor_loop E motors onSensor stepSize (poll_timeout timeoutms waitms n) waitms dly ?w"
    using Suc by simp
  also have "\<dots> = MoveHandOnSensor_loop E motors onSensor stepSize
        (poll_timeout timeoutms waitms (Suc n)) waitms dly
        (poll_state E motors onSensor stepSize waitms dly w (Suc n))"
    using n by (subst MoveHandOnSensor_loop.simps) (simp add: case_prod_beta t poll_step_def)
  finally show ?case .
qed

lemma loop_exit:
  assumes "\<forall>i<n. \<not> poll_matches E motors onSensor stepSize waitms dly w i
                \<and> \<not> poll_timeout timeoutms waitms i <s 0"
      and "poll_matches E motors onSensor stepSize waitms dly w n \<or> poll_timeout timeoutms waitms n <s 0"
  shows "MoveHandOnSensor_loop E motors onSensor stepSize timeoutms waitms dly w
       = Some (poll_timeout timeoutms waitms n,
               snd (all_on_sensor E motors onSensor (poll_state E motors onSensor stepSize waitms dly w n)))"
  unfolding loop_unroll[OF assms(1)]
  using assms(2) by (subst MoveHandOnSensor_loop.simps) (simp add: case_prod_beta poll_matches_def)

lemma MoveHandOnSensor_exit:
  assumes "\<forall>i<n. \<not> poll_matches E motors onSensor stepSize waitms dly w i
                \<and> \<not> poll_timeout timeoutms waitms i <s 0"
      and "poll_matches E motors onSensor stepSize waitms dly w n \<or> poll_timeout timeoutms waitms n <s 0"
  shows "STEPPER_MoveHandOnSensor E motors onSensor stepSize timeoutms waitms dly w
       = Some (if poll_timeout timeoutms waitms n <s 0 then ERR_UNDERFLOW else ERR_OK,
               snd (all_on_sensor E motors onSensor (poll_state E motors onSensor stepSize waitms dly w n)))"
  by (simp add: STEPPER_MoveHandOnSensor_def loop_exit[OF assms])

lemma poll_timeout_word: "poll_timeout t wt n = word_of_int (sint t - int n * sint wt)"
  by (simp add: poll_timeout_def)


lemma sint_poll_timeout:
  assumes "- 2147483648 \<le> sint t - int n * sint wt" "sint t - int n * sint wt \<le> 2147483647"
  shows "sint (poll_timeout t wt n) = sint t - int n * sint wt"
  unfolding poll_timeout_word using assms by (rule sint32_of_int)


lemma sint32_of_int_high:
  assumes "2147483648 \<le> x" "x \<le> 4294967295"
  shows "sint (word_of_int x :: 32 word) = x - 4294967296"
proof -
  have e: "(word_of_int x :: 32 word) = word_of_int (x - 4294967296)"
    by (simp add: word_of_int_eq_iff take_bit_eq_mod)
  show ?thesis
    by (subst e, rule sint32_of_int) (use assms in simp_all)
qed

lemma timeout_goes_negative:
  assumes "wt \<noteq> 0"
  shows "\<exists>n. poll_timeout t wt n <s 0"
proof (cases "sint t < 0")
  case True
  then have "poll_timeout t wt 0 <s 0" by (simp add: poll_timeout_def word_sless_alt)
  then show ?thesis ..
next
  case False
  then have t0: "0 \<le> sint t" by simp
  have s0: "sint wt \<noteq> 0" using assms by (simp add: signed_eq_0_iff)
  show ?thesis
  proof (cases "0 < sint wt")
    case True
    let ?n = "nat (sint t div sint wt) + 1"
    have q: "0 \<le> sint t div sint wt" using t0 True by (simp add: pos_imp_zdiv_nonneg_iff)
    have "sint t - int ?n * sint wt = sint t mod sint wt - sint wt"
      using q by (simp add: algebra_simps minus_mult_div_eq_mod [symmetric])
    moreover have "0 \<le> sint t mod sint wt" "sint t mod sint wt < sint wt"
      using True by simp_all
    ultimately have v: "sint t - int ?n * sint wt < 0" "- 2147483648 \<le> sint t - int ?n * sint wt"
      using sint32_range[of wt] by linarith+
    then have "sint (poll_timeout t wt ?n) = sint t - int ?n * sint wt"
      by (intro sint_poll_timeout) linarith+
    then have "poll_timeout t wt ?n <s 0" using v by (simp add: word_sless_alt)
    then show ?thesis ..
  next
    case False
    then have neg: "sint wt < 0" using s0 by simp
    define v where "v = - sint wt"
    have v: "0 < v" "v \<le> 2147483648" using neg sint32_range[of wt] by (simp_all add: v_def)
    define m where "m = 2147483647 - sint t"
    have m0: "0 \<le> m" using sint32_range[of t] by (simp add: m_def)
    let ?n = "nat (m div v) + 1"
    have q: "0 \<le> m div v" using m0 v by (simp add: pos_imp_zdiv_nonneg_iff)
    have "int ?n * v = m - m mod v + v"
      using q by (simp add: algebra_simps minus_mod_eq_mult_div)
    then have e: "sint t - int ?n * sint wt = 2147483647 - m mod v + v"
      by (simp add: v_def m_def algebra_simps)
    have r: "0 \<le> m mod v" "m mod v < v" using v by simp_all
    have "sint (poll_timeout t wt ?n) = (2147483647 - m mod v + v) - 4294967296"
      unfolding poll_timeout_word e by (rule sint32_of_int_high) (use r v in linarith)+
    then have "sint (poll_timeout t wt ?n) < 0" using r v by linarith
    then have "poll_timeout t wt ?n <s 0" by (simp add: word_sless_alt)
    then show ?thesis ..
  qed
qed


lemma MoveHandOnSensor_never:
  assumes "waitms \<noteq> 0" and "\<forall>j. \<not> poll_matches E motors onSensor stepSize waitms dly w j"
  shows "\<exists>n. STEPPER_MoveHandOnSensor E motors onSensor stepSize timeoutms waitms dly w
       = Some (ERR_UNDERFLOW, snd (all_on_sensor E motors onSensor
                              (poll_state E motors onSensor stepSize waitms dly w n)))"
proof -
  define n where "n = (LEAST i. poll_timeout timeoutms waitms i <s 0)"
  obtain i0 where "poll_timeout timeoutms waitms i0 <s 0"
    using timeout_goes_negative[OF assms(1)] by blast
  then have m: "poll_timeout timeoutms waitms n <s 0"
    unfolding n_def by (rule LeastI)
  have nm: "\<not> poll_timeout timeoutms waitms i <s 0" if "i < n" for i
    using that not_less_Least unfolding n_def by blast
  have "STEPPER_MoveHandOnSensor E motors onSensor stepSize timeoutms waitms dly w
       = Some (if poll_timeout timeoutms waitms n <s 0 then ERR_UNDERFLOW else ERR_OK,
               snd (all_on_sensor E motors onSensor (poll_state E motors onSensor stepSize waitms dly w n)))"
    by (rule MoveHandOnSensor_exit) (use nm m assms(2) in auto)
  then show ?thesis using m by auto
qed

lemma MoveHandOnSensor_returns:
  assumes "waitms \<noteq> 0"
  shows "\<exists>n. STEPPER_MoveHandOnSensor E motors onSensor stepSize timeoutms waitms dly w
       = Some (if poll_timeout timeoutms waitms n <s 0 then ERR_UNDERFLOW else ERR_OK,
               snd (all_on_sensor E motors onSensor
                      (poll_state E motors onSensor stepSize waitms dly w n)))"
proof -
  let ?X = "\<lambda>i. poll_matches E motors onSensor stepSize waitms dly w i
                \<or> poll_timeout timeoutms waitms i <s 0"
  define n where "n = (LEAST i. ?X i)"
  obtain i0 where "poll_timeout timeoutms waitms i0 <s 0"
    using timeout_goes_negative[OF assms] by blast
  then have "?X i0" by simp
  then have m: "?X n" unfolding n_def by (rule LeastI)
  have nm: "\<not> ?X i" if "i < n" for i
    using that not_less_Least unfolding n_def by blast
  have "STEPPER_MoveHandOnSensor E motors onSensor stepSize timeoutms waitms dly w
       = Some (if poll_timeout timeoutms waitms n <s 0 then ERR_UNDERFLOW else ERR_OK,
               snd (all_on_sensor E motors onSensor (poll_state E motors onSensor stepSize waitms dly w n)))"
    by (rule MoveHandOnSensor_exit) (use nm m in auto)
  then show ?thesis ..
qed

lemma MoveHandOnSensor_total:
  assumes "waitms \<noteq> 0"
  shows "\<exists>r w'. STEPPER_MoveHandOnSensor E motors onSensor stepSize timeoutms waitms dly w = Some (r, w')
            \<and> (r = ERR_OK \<or> r = ERR_UNDERFLOW)"
  using MoveHandOnSensor_returns[OF assms, of E motors onSensor stepSize timeoutms dly w]
  by (metis (full_types))



subsection \<open>The simulated board\<close>

lemma sim_read: "sim_stuck b w \<Longrightarrow> read_sensor sim_extern m w = (b, w)"
  by (simp add: sim_stuck_def read_sensor_def sim_extern_def)

lemma sim_all_on: "sim_stuck b w \<Longrightarrow> all_on_sensor sim_extern [0] onSensor w = (onSensor = b, w)"
  by (auto simp: sim_read)

lemma sim_stuck_move_motor: "sim_stuck b w \<Longrightarrow> sim_stuck b (move_motor m f w)"
  by (simp add: sim_stuck_def move_motor_def)

lemma hw_move_motor [simp]: "hw (move_motor m f w) = hw w"
  by (simp add: move_motor_def)

lemma calls_move_motor [simp]: "calls (move_motor m f w) = calls w"
  by (simp add: move_motor_def)

lemma sim_move_off:
  "sim_stuck b w \<Longrightarrow> sim_stuck b (move_off_sensor sim_extern [0] onSensor stepSize dly w)
     \<and> hw (move_off_sensor sim_extern [0] onSensor stepSize dly w) = hw w"
  by (cases "onSensor = b") (auto simp: sim_read sim_stuck_move_motor)

lemma sim_move_and_wait:
  "sim_stuck b w \<Longrightarrow> sim_stuck b (move_and_wait sim_extern ms w)
     \<and> hw (move_and_wait sim_extern ms w) = hw w"
  by (simp add: sim_stuck_def move_and_wait_def sim_extern_def)

lemma sim_poll_step:
  "sim_stuck b w \<Longrightarrow> sim_stuck b (poll_step sim_extern [0] onSensor stepSize waitms dly w)
     \<and> hw (poll_step sim_extern [0] onSensor stepSize waitms dly w) = hw w"
  unfolding poll_step_def
  using sim_all_on[of b w onSensor] sim_move_off[of b w onSensor stepSize dly]
    sim_move_and_wait[of b "move_off_sensor sim_extern [0] onSensor stepSize dly w" waitms]
  by (simp del: all_on_sensor.simps move_off_sensor.simps)

lemma sim_poll_state:
  assumes "sim_stuck b w"
  shows "sim_stuck b (poll_state sim_extern [0] onSensor stepSize waitms dly w n)
     \<and> hw (poll_state sim_extern [0] onSensor stepSize waitms dly w n) = hw w"
proof (induction n)
  case 0
  then show ?case using assms by simp
next
  case (Suc n)
  let ?w = "poll_state sim_extern [0] onSensor stepSize waitms dly w n"
  have "sim_stuck b ?w" "hw ?w = hw w" using Suc by simp_all
  with sim_poll_step[of b ?w onSensor stepSize waitms dly] show ?case
    by (simp del: all_on_sensor.simps move_off_sensor.simps)
qed

lemma sim_poll_matches:
  assumes "sim_stuck b w"
  shows "poll_matches sim_extern [0] onSensor stepSize waitms dly w n = (onSensor = b)"
proof -
  let ?w = "poll_state sim_extern [0] onSensor stepSize waitms dly w n"
  have "sim_stuck b ?w" using sim_poll_state[OF assms] by simp
  from sim_all_on[OF this, of onSensor] show ?thesis
    by (simp add: poll_matches_def del: all_on_sensor.simps)
qed

lemma sim_search_at_once:
  assumes "sim_stuck b w" "\<not> timeoutms <s 0"
  shows "STEPPER_MoveHandOnSensor sim_extern [0] b stepSize timeoutms waitms dly w = Some (ERR_OK, w)"
proof -
  have "STEPPER_MoveHandOnSensor sim_extern [0] b stepSize timeoutms waitms dly w
       = Some (if poll_timeout timeoutms waitms 0 <s 0 then ERR_UNDERFLOW else ERR_OK,
               snd (all_on_sensor sim_extern [0] b (poll_state sim_extern [0] b stepSize waitms dly w 0)))"
    by (rule MoveHandOnSensor_exit) (simp_all add: sim_poll_matches[OF assms(1)])
  then show ?thesis using assms by (simp add: sim_all_on poll_timeout_def del: all_on_sensor.simps)
qed

lemma sim_search_times_out:
  assumes "sim_stuck b w" "waitms \<noteq> 0"
  shows "\<exists>w'. STEPPER_MoveHandOnSensor sim_extern [0] (\<not> b) stepSize timeoutms waitms dly w
                = Some (ERR_UNDERFLOW, w') \<and> sim_stuck b w' \<and> hw w' = hw w"
proof -
  have "\<forall>j. \<not> poll_matches sim_extern [0] (\<not> b) stepSize waitms dly w j"
    by (simp add: sim_poll_matches[OF assms(1)])
  from MoveHandOnSensor_never[OF assms(2) this, of timeoutms]
  obtain n where n: "STEPPER_MoveHandOnSensor sim_extern [0] (\<not> b) stepSize timeoutms waitms dly w
       = Some (ERR_UNDERFLOW, snd (all_on_sensor sim_extern [0] (\<not> b)
                              (poll_state sim_extern [0] (\<not> b) stepSize waitms dly w n)))"
    by blast
  let ?w = "poll_state sim_extern [0] (\<not> b) stepSize waitms dly w n"
  have s: "sim_stuck b ?w" "hw ?w = hw w"
    using sim_poll_state[OF assms(1), of "\<not> b" stepSize waitms dly n] by simp_all
  have "snd (all_on_sensor sim_extern [0] (\<not> b) ?w) = ?w"
    using sim_all_on[OF s(1), of "\<not> b"] by (simp del: all_on_sensor.simps)
  then show ?thesis using n s by (simp del: all_on_sensor.simps)
qed

lemma sim_world_stuck: "sim_stuck b (sim_world [] b)"
  by (simp add: sim_stuck_def sim_world_def)

lemma sim_search_script:
  assumes "sim_readings (hw w) = b # bs" "\<not> timeoutms <s 0"
  shows "STEPPER_MoveHandOnSensor sim_extern [0] b stepSize timeoutms waitms dly w
       = Some (ERR_OK, w\<lparr>hw := (hw w)\<lparr>sim_readings := bs\<rparr>\<rparr>)"
proof -
  have a: "all_on_sensor sim_extern [0] b w = (True, w\<lparr>hw := (hw w)\<lparr>sim_readings := bs\<rparr>\<rparr>)"
    using assms(1) by (simp add: read_sensor_def sim_extern_def)
  have "STEPPER_MoveHandOnSensor sim_extern [0] b stepSize timeoutms waitms dly w
       = Some (if poll_timeout timeoutms waitms 0 <s 0 then ERR_UNDERFLOW else ERR_OK,
               snd (all_on_sensor sim_extern [0] b (poll_state sim_extern [0] b stepSize waitms dly w 0)))"
    by (rule MoveHandOnSensor_exit) (simp_all add: poll_matches_def a del: all_on_sensor.simps)
  then show ?thesis using assms(2) by (simp add: a poll_timeout_def del: all_on_sensor.simps)
qed

subsection \<open>Result of \<^verbatim>\<open>STEPPER_MoveHandOnSensor\<close>\<close>



lemmas sim_eval = sim_extern_def sim_world_def read_sensor_def move_motor_def move_and_wait_def
  poll_matches_def poll_step_def STEPPER_MoveMotorStepsRel_def dev0_def


lemma sim_script_nomatch0:
  "\<not> poll_matches sim_extern [0] True 10 10 6 (sim_world [False, False, True] False) 0"
  by (simp add: sim_eval)


subsection \<open>\<^verbatim>\<open>STEPPER_ZeroHand\<close>\<close>

lemma calls_move_by_offsets [simp]: "calls (move_by_offsets ms offs dly w) = calls w"
  by (induction ms offs dly w rule: move_by_offsets.induct) simp_all

lemma hw_move_by_offsets [simp]: "hw (move_by_offsets ms offs dly w) = hw w"
  by (induction ms offs dly w rule: move_by_offsets.induct) simp_all

lemma calls_MoveByOffset:
  "calls (STEPPER_MoveByOffset E motors offsets dly w) = calls w @ [Call_MoveAndWait 10]"
  by (simp add: STEPPER_MoveByOffset_def move_and_wait_def case_prod_beta)

lemma calls_SetZeroPosition:
  "calls (STEPPER_SetZeroPosition E motors w) = calls w @ map (\<lambda>m. Call_SetPos m 0) motors"
  by (induction motors arbitrary: w) (simp_all add: set_pos_def)

lemma ZeroHand_result:
  assumes "STEPPER_MoveHandOnSensor E motors True 10 10000 10 dly
             (move_and_wait E 10 (move_out_of_sensor E N motors dly w)) = Some (r1, w1)"
      and "STEPPER_MoveHandOnSensor E motors False (- 1) 10000 10 dly w1 = Some (r2, w2)"
      and "STEPPER_MoveHandOnSensor E motors True 1 10000 2 dly w2 = Some (r3, w3)"
  shows "STEPPER_ZeroHand E N motors offsets dly w
       = Some (if r1 = ERR_OK \<and> r2 = ERR_OK \<and> r3 = ERR_OK then ERR_OK else ERR_FAILED,
               STEPPER_SetZeroPosition E motors (STEPPER_MoveByOffset E motors offsets dly w3))"
  using assms by (simp add: STEPPER_ZeroHand_def Let_def)

text \<open>
  What \<^verbatim>\<open>STEPPER_ZeroHand\<close> does on every input: the three sensor searches are all
  executed and return, the result is \<^verbatim>\<open>ERR_FAILED\<close> if any of them failed and \<^verbatim>\<open>ERR_OK\<close>
  otherwise, and the final state is that of \<^verbatim>\<open>STEPPER_MoveByOffset\<close> followed by
  \<^verbatim>\<open>STEPPER_SetZeroPosition\<close> on the state the third search left, whatever the searches
  returned.
\<close>

lemma ZeroHand_always_returns:
  "\<exists>r1 w1 r2 w2 r3 w3.
     STEPPER_MoveHandOnSensor E motors True 10 10000 10 dly
        (move_and_wait E 10 (move_out_of_sensor E N motors dly w)) = Some (r1, w1)
   \<and> STEPPER_MoveHandOnSensor E motors False (- 1) 10000 10 dly w1 = Some (r2, w2)
   \<and> STEPPER_MoveHandOnSensor E motors True 1 10000 2 dly w2 = Some (r3, w3)
   \<and> STEPPER_ZeroHand E N motors offsets dly w
       = Some (if r1 = ERR_OK \<and> r2 = ERR_OK \<and> r3 = ERR_OK then ERR_OK else ERR_FAILED,
               STEPPER_SetZeroPosition E motors (STEPPER_MoveByOffset E motors offsets dly w3))
   \<and> calls (STEPPER_SetZeroPosition E motors (STEPPER_MoveByOffset E motors offsets dly w3))
       = calls w3 @ Call_MoveAndWait 10 # map (\<lambda>m. Call_SetPos m 0) motors"
proof -
  obtain r1 w1 where p1: "STEPPER_MoveHandOnSensor E motors True 10 10000 10 dly
        (move_and_wait E 10 (move_out_of_sensor E N motors dly w)) = Some (r1, w1)"
    using MoveHandOnSensor_total[of 10 E motors True 10 10000 dly] by fastforce
  obtain r2 w2 where p2: "STEPPER_MoveHandOnSensor E motors False (- 1) 10000 10 dly w1 = Some (r2, w2)"
    using MoveHandOnSensor_total[of 10 E motors False "- 1" 10000 dly w1] by fastforce
  obtain r3 w3 where p3: "STEPPER_MoveHandOnSensor E motors True 1 10000 2 dly w2 = Some (r3, w3)"
    using MoveHandOnSensor_total[of 2 E motors True 1 10000 dly w2] by fastforce
  have "STEPPER_ZeroHand E N motors offsets dly w
       = Some (if r1 = ERR_OK \<and> r2 = ERR_OK \<and> r3 = ERR_OK then ERR_OK else ERR_FAILED,
               STEPPER_SetZeroPosition E motors (STEPPER_MoveByOffset E motors offsets dly w3))"
    by (rule ZeroHand_result[OF p1 p2 p3])
  moreover have "calls (STEPPER_SetZeroPosition E motors (STEPPER_MoveByOffset E motors offsets dly w3))
       = calls w3 @ Call_MoveAndWait 10 # map (\<lambda>m. Call_SetPos m 0) motors"
    by (simp add: calls_SetZeroPosition calls_MoveByOffset)
  ultimately show ?thesis using p1 p2 p3 by blast
qed

lemma sim_ZeroHand_start:
  "sim_stuck False (move_and_wait sim_extern 10 (move_out_of_sensor sim_extern N [0] dly (sim_world [] False)))
   \<and> hw (move_and_wait sim_extern 10 (move_out_of_sensor sim_extern N [0] dly (sim_world [] False)))
       = hw (sim_world [] False)"
proof -
  have "move_out_of_sensor sim_extern N [0] dly (sim_world [] False) = sim_world [] False"
    by (simp add: sim_read[OF sim_world_stuck])
  then show ?thesis using sim_move_and_wait[OF sim_world_stuck[of False], of 10] by simp
qed

lemma sim_ZeroHand:
  "\<exists>w3. sim_stuck False w3 \<and> hw w3 = hw (sim_world [] False) \<and>
     map_option fst (STEPPER_MoveHandOnSensor sim_extern [0] True 10 10000 10 6
       (move_and_wait sim_extern 10 (move_out_of_sensor sim_extern 720 [0] 6 (sim_world [] False))))
       = Some ERR_UNDERFLOW \<and>
     STEPPER_ZeroHand sim_extern 720 [0] [5] 6 (sim_world [] False)
       = Some (ERR_FAILED, STEPPER_SetZeroPosition sim_extern [0]
                 (STEPPER_MoveByOffset sim_extern [0] [5] 6 w3))"
proof -
  let ?w0 = "move_and_wait sim_extern 10 (move_out_of_sensor sim_extern 720 [0] 6 (sim_world [] False))"
  have s0: "sim_stuck False ?w0" "hw ?w0 = hw (sim_world [] False)"
    using sim_ZeroHand_start[of 720 6] by simp_all
  obtain w1 where p1: "STEPPER_MoveHandOnSensor sim_extern [0] True 10 10000 10 6 ?w0
       = Some (ERR_UNDERFLOW, w1)" and s1: "sim_stuck False w1" "hw w1 = hw ?w0"
    using sim_search_times_out[OF s0(1), of 10 10 10000 6] by auto
  have p2: "STEPPER_MoveHandOnSensor sim_extern [0] False (- 1) 10000 10 6 w1 = Some (ERR_OK, w1)"
    by (rule sim_search_at_once[OF s1(1)]) (simp add: word_sless_alt)
  obtain w3 where p3: "STEPPER_MoveHandOnSensor sim_extern [0] True 1 10000 2 6 w1
       = Some (ERR_UNDERFLOW, w3)" and s3: "sim_stuck False w3" "hw w3 = hw w1"
    using sim_search_times_out[OF s1(1), of 2 1 10000 6] by auto
  have "STEPPER_ZeroHand sim_extern 720 [0] [5] 6 (sim_world [] False)
       = Some (ERR_FAILED, STEPPER_SetZeroPosition sim_extern [0]
                 (STEPPER_MoveByOffset sim_extern [0] [5] 6 w3))"
    using ZeroHand_result[OF p1 p2 p3, where offsets = "[5]"] by simp
  then show ?thesis using s3 s1 s0 p1 by auto
qed

lemma sim_after_zeroing:
  assumes "sim_stuck b w3"
  shows "sim_pos (hw (STEPPER_SetZeroPosition sim_extern [0] (STEPPER_MoveByOffset sim_extern [0] [5] 6 w3)))
           = (sim_pos (hw w3))[0 := 0]"
    and "map doSteps (STEPPER_Clocks (STEPPER_SetZeroPosition sim_extern [0]
           (STEPPER_MoveByOffset sim_extern [0] [5] 6 w3))) = [5]"
proof -
  obtain d where d: "STEPPER_Clocks w3 = [d]"
    using assms by (cases "STEPPER_Clocks w3") (auto simp: sim_stuck_def)
  show "sim_pos (hw (STEPPER_SetZeroPosition sim_extern [0] (STEPPER_MoveByOffset sim_extern [0] [5] 6 w3)))
           = (sim_pos (hw w3))[0 := 0]"
    by (simp add: STEPPER_MoveByOffset_def move_and_wait_def set_pos_def sim_extern_def)
  show "map doSteps (STEPPER_Clocks (STEPPER_SetZeroPosition sim_extern [0]
           (STEPPER_MoveByOffset sim_extern [0] [5] 6 w3))) = [5]"
    using d by (simp add: STEPPER_MoveByOffset_def move_and_wait_def set_pos_def sim_extern_def
        move_motor_def STEPPER_MoveMotorStepsRel_def)
qed

text \<open>
  C3 (the code at the failing input). On the simulated board whose sensor is stuck off,
  the coarse approach of \<^verbatim>\<open>STEPPER_ZeroHand\<close> times out and the result is \<^verbatim>\<open>ERR_FAILED\<close>,
  but the later phases ran all the same: the offset move armed the motor with the
  offset 5 and the zeroing set the driver position from 100 to 0, although no hand is
  on its sensor (the comment of line 434 says they all are).
\<close>

theorem C3_ZeroHand_no_short_circuit:
  "map_option fst (STEPPER_MoveHandOnSensor sim_extern [0] True 10 10000 10 6
     (move_and_wait sim_extern 10 (move_out_of_sensor sim_extern 720 [0] 6 (sim_world [] False))))
     = Some ERR_UNDERFLOW
   \<and> map_option fst (STEPPER_ZeroHand sim_extern 720 [0] [5] 6 (sim_world [] False)) = Some ERR_FAILED
   \<and> sim_pos (hw (sim_world [] False)) = [100]
   \<and> map_option (sim_pos \<circ> hw \<circ> snd) (STEPPER_ZeroHand sim_extern 720 [0] [5] 6 (sim_world [] False))
       = Some [0]
   \<and> map_option (map doSteps \<circ> STEPPER_Clocks \<circ> snd)
        (STEPPER_ZeroHand sim_extern 720 [0] [5] 6 (sim_world [] False)) = Some [5]"
proof -
  obtain w3 where w3: "sim_stuck False w3" "hw w3 = hw (sim_world [] False)"
    "map_option fst (STEPPER_MoveHandOnSensor sim_extern [0] True 10 10000 10 6
       (move_and_wait sim_extern 10 (move_out_of_sensor sim_extern 720 [0] 6 (sim_world [] False))))
       = Some ERR_UNDERFLOW"
    "STEPPER_ZeroHand sim_extern 720 [0] [5] 6 (sim_world [] False)
       = Some (ERR_FAILED, STEPPER_SetZeroPosition sim_extern [0]
                 (STEPPER_MoveByOffset sim_extern [0] [5] 6 w3))"
    using sim_ZeroHand by blast
  have p: "sim_pos (hw (sim_world [] False)) = [100]" by (simp add: sim_world_def)
  show ?thesis
    using w3(3,4) sim_after_zeroing[OF w3(1)] w3(2) p by simp
qed

subsection \<open>\<^verbatim>\<open>STEPPER_SetOffsetFrom12\<close>\<close>

lemma hw_zero_and_set_delay:
  "hw (zero_and_set_delay sim_extern [0] w) = (hw w)\<lparr>sim_pos := (sim_pos (hw w))[0 := 0]\<rparr>"
  by (simp add: set_pos_def sim_extern_def)

lemma sim_stuck_zero_and_set_delay:
  "sim_stuck b w \<Longrightarrow> sim_stuck b (zero_and_set_delay sim_extern [0] w)"
  by (simp add: set_pos_def sim_extern_def sim_stuck_def move_motor_def)

lemma hw_MoveByOffset_sim [simp]:
  "hw (STEPPER_MoveByOffset sim_extern motors offsets dly w) = hw w"
  by (simp add: STEPPER_MoveByOffset_def move_and_wait_def sim_extern_def)

text \<open>
  C4 (the code at the failing input). On the simulated board whose sensor is stuck on,
  the first search succeeds at once, the second (leave the sensor) times out, and the
  third succeeds at once. \<^verbatim>\<open>STEPPER_SetOffsetFrom12\<close> then writes the configuration, the
  stored offset 5 becomes 0, and the result is \<^verbatim>\<open>ERR_OK\<close>.
\<close>

theorem C4_SetOffsetFrom12_persists_after_failed_phase:
  "map_option fst (STEPPER_MoveHandOnSensor sim_extern [0] False 1 10000 2 STEPPER_HAND_ZERO_DELAY
      (zero_and_set_delay sim_extern [0] (sim_world [] True))) = Some ERR_UNDERFLOW
   \<and> map_option fst (STEPPER_SetOffsetFrom12 sim_extern (sim_world [] True)) = Some ERR_OK
   \<and> zeroOffsets (sim_flash (hw (sim_world [] True))) = [5]
   \<and> map_option (zeroOffsets \<circ> sim_flash \<circ> hw \<circ> snd)
        (STEPPER_SetOffsetFrom12 sim_extern (sim_world [] True)) = Some [0]"
proof -
  let ?w0 = "zero_and_set_delay sim_extern [0] (sim_world [] True)"
  have m: "[0..<length (STEPPER_Clocks (sim_world [] True))] = [0]"
    by (simp add: sim_world_def)
  have s0: "sim_stuck True ?w0"
    by (rule sim_stuck_zero_and_set_delay) (rule sim_world_stuck)
  have h0: "sim_pos (hw ?w0) = [0]"
    by (simp only: hw_zero_and_set_delay) (simp add: sim_world_def)
  have t: "\<not> (10000 :: 32 word) <s 0" by (simp add: word_sless_alt)
  have p1: "STEPPER_MoveHandOnSensor sim_extern [0] True (- 10) 10000 5 STEPPER_HAND_ZERO_DELAY ?w0
            = Some (ERR_OK, ?w0)"
    by (rule sim_search_at_once[OF s0 t])
  obtain w2 where p2: "STEPPER_MoveHandOnSensor sim_extern [0] False 1 10000 2 STEPPER_HAND_ZERO_DELAY ?w0
       = Some (ERR_UNDERFLOW, w2)" and s2: "sim_stuck True w2" "hw w2 = hw ?w0"
    using sim_search_times_out[OF s0, of 2 1 10000 STEPPER_HAND_ZERO_DELAY] by auto
  have p3: "STEPPER_MoveHandOnSensor sim_extern [0] True (- 1) 10000 2 STEPPER_HAND_ZERO_DELAY w2
            = Some (ERR_OK, w2)"
    by (rule sim_search_at_once[OF s2(1) t])
  have g: "X12_017_GetPos sim_extern 0 (hw w2) = 0"
    using s2(2) h0 by (simp add: sim_extern_def)
  have wc: "write_config sim_extern d w2
      = (ERR_OK, w2\<lparr>hw := (hw w2)\<lparr>sim_flash := d\<rparr>,
                     calls := calls w2 @ [Call_WriteConfig (zeroOffsets d)]\<rparr>)" for d
    by (simp add: write_config_def sim_extern_def)
  have r: "\<exists>offs d. STEPPER_SetOffsetFrom12 sim_extern (sim_world [] True)
      = Some (ERR_OK, STEPPER_MoveByOffset sim_extern [0] offs STEPPER_HAND_ZERO_DELAY
           (w2\<lparr>hw := (hw w2)\<lparr>sim_flash := d\<lparr>zeroOffsets := [0]\<rparr>\<rparr>,
                calls := calls w2 @ [Call_WriteConfig [0]]\<rparr>))"
    unfolding STEPPER_SetOffsetFrom12_def Let_def m
    by (simp add: p1 p2 p3 g wc del: zero_and_set_delay.simps) blast
  have f: "zeroOffsets (sim_flash (hw (sim_world [] True))) = [5]"
    by (simp add: sim_world_def)
  from r obtain offs d where r': "STEPPER_SetOffsetFrom12 sim_extern (sim_world [] True)
      = Some (ERR_OK, STEPPER_MoveByOffset sim_extern [0] offs STEPPER_HAND_ZERO_DELAY
           (w2\<lparr>hw := (hw w2)\<lparr>sim_flash := d\<lparr>zeroOffsets := [0]\<rparr>\<rparr>,
                calls := calls w2 @ [Call_WriteConfig [0]]\<rparr>))"
    by blast
  show ?thesis
    using p2 f by (simp add: r')
qed

end
